theory Spec2Isabelle
  imports Main "HOL-Library.Multiset"
begin

section \<open>The client-side socket hook of the UNO game (useSocket.tsx)\<close>

text \<open>
  The hook \<^verbatim>\<open>useSocket\<close> derives views of the game held by a store (winner, local
  player, the opponents in table order) and offers actions that send a request to the
  server and, for some, update the store right away. This theory embeds the functions
  of \<^verbatim>\<open>src/games/UNO/packages/unoenty/src/hooks/useSocket.tsx\<close> one by one.

  JavaScript values that may be absent are options: \<open>None\<close> is \<^verbatim>\<open>undefined\<close>, and
  \<^verbatim>\<open>a?.b\<close> is a case distinction on \<open>a\<close>. Numbers that index arrays are \<open>int\<close>.
  Effects (requests sent, calls of the store's setters, calls of a callback) are appended
  to a trace, in the order the code performs them. A read of \<^verbatim>\<open>socketStore\<close> is a read of
  the store as it is when the statement runs.
\<close>

subsection \<open>Data\<close>

text \<open>
  Modelled from the spec: the type declarations of \<^verbatim>\<open>@uno-game/protocols\<close>
  (\<^verbatim>\<open>CardData\<close>, \<^verbatim>\<open>PlayerData\<close>, \<^verbatim>\<open>Game\<close>, \<^verbatim>\<open>Chat\<close>) are imported by the source and not
  part of it. The records have the fields the hook reads or writes, under the source's
  names (\<^verbatim>\<open>id\<close> and the player's \<^verbatim>\<open>status\<close> carry a suffix), and one field for
  everything else, which the hook only copies.
\<close>

record CardData =
  id_card :: string
  attrs_card :: string

text \<open>
  Modelled from the spec: \<^verbatim>\<open>PlayerData\<close> of \<^verbatim>\<open>@uno-game/protocols\<close>, with \<^verbatim>\<open>id\<close>,
  \<^verbatim>\<open>ready\<close>, \<^verbatim>\<open>status\<close> and \<^verbatim>\<open>handCards\<close>.
\<close>

record PlayerData =
  id_player :: string
  ready :: bool
  status_player :: string
  handCards :: "CardData list"
  attrs_player :: string

text \<open>
  Modelled from the spec: \<^verbatim>\<open>Game\<close> of \<^verbatim>\<open>@uno-game/protocols\<close>, with \<^verbatim>\<open>status\<close>,
  \<^verbatim>\<open>currentPlayerIndex\<close>, \<^verbatim>\<open>players\<close> and \<^verbatim>\<open>usedCards\<close>. A \<^verbatim>\<open>Game\<close> object at run
  time can lack fields: \<^verbatim>\<open>{ ...socketStore?.game } as Game\<close> is the empty object when
  the store has no game. Every field is therefore optional.
\<close>

record Game =
  status :: "string option"
  currentPlayerIndex :: "int option"
  players :: "PlayerData list option"
  usedCards :: "CardData list option"
  attrs_game :: "string option"

text \<open>The object \<^verbatim>\<open>{}\<close> read as a \<^verbatim>\<open>Game\<close>.\<close>

definition emptyObject :: Game where
  "emptyObject = \<lparr>status = None, currentPlayerIndex = None, players = None,
     usedCards = None, attrs_game = None\<rparr>"

text \<open>
  Modelled from the spec: the local player held by the store, of which the hook reads
  \<^verbatim>\<open>id\<close>, and a \<^verbatim>\<open>Chat\<close> with its id and its messages in order.
\<close>

record Player =
  id_local :: string
  attrs_local :: string

record Chat =
  id_chat :: string
  messages :: "string list"

text \<open>
  Modelled from the spec: the store of \<^verbatim>\<open>@/store/Socket\<close> is not part of the source.
  Its contract is \<^verbatim>\<open>game\<close> (a Game or absent), \<^verbatim>\<open>player\<close> (the local player or absent)
  and \<^verbatim>\<open>chats\<close> (a mapping from chat id to Chat).
\<close>

record SocketStore =
  game :: "Game option"
  player :: "Player option"
  chats :: "(string \<times> Chat) list"

text \<open>A value a getter can return: \<^verbatim>\<open>undefined\<close>, \<^verbatim>\<open>null\<close>, \<^verbatim>\<open>{}\<close> or an object.\<close>

datatype 'a js = Undefined | Null | EmptyObj | Obj 'a

subsection \<open>Reading the store\<close>

text \<open>\<^verbatim>\<open>socketStore?.game?.players\<close>\<close>

definition storePlayers :: "SocketStore \<Rightarrow> PlayerData list option" where
  "storePlayers s = (case game s of None \<Rightarrow> None | Some g \<Rightarrow> players g)"

text \<open>
  \<^verbatim>\<open>socketStore?.game?.usedCards\<close>, \<^verbatim>\<open>socketStore?.game?.status\<close> and
  \<^verbatim>\<open>socketStore?.game?.currentPlayerIndex\<close>.
\<close>

definition storeUsedCards :: "SocketStore \<Rightarrow> CardData list option" where
  "storeUsedCards s = (case game s of None \<Rightarrow> None | Some g \<Rightarrow> usedCards g)"

definition storeStatus :: "SocketStore \<Rightarrow> string option" where
  "storeStatus s = (case game s of None \<Rightarrow> None | Some g \<Rightarrow> status g)"

definition storeCurrentPlayerIndex :: "SocketStore \<Rightarrow> int option" where
  "storeCurrentPlayerIndex s = (case game s of None \<Rightarrow> None | Some g \<Rightarrow> currentPlayerIndex g)"

text \<open>\<^verbatim>\<open>socketStore?.game?.players || []\<close>\<close>

definition storePlayersOrEmpty :: "SocketStore \<Rightarrow> PlayerData list" where
  "storePlayersOrEmpty s = (case storePlayers s of None \<Rightarrow> [] | Some ps \<Rightarrow> ps)"

text \<open>
  \<^verbatim>\<open>player.id === socketStore?.player?.id\<close>: the right side is \<^verbatim>\<open>undefined\<close> when the
  store has no local player, and then no player's id equals it.
\<close>

definition isLocal :: "SocketStore \<Rightarrow> PlayerData \<Rightarrow> bool" where
  "isLocal s p = (case player s of None \<Rightarrow> False | Some lp \<Rightarrow> id_player p = id_local lp)"

text \<open>\<^verbatim>\<open>arr?.[i]\<close> for a number \<open>i\<close>: the element, or \<^verbatim>\<open>undefined\<close> outside the array.\<close>

definition index :: "'a list option \<Rightarrow> int option \<Rightarrow> 'a option" where
  "index arr i =
     (case arr of None \<Rightarrow> None
      | Some xs \<Rightarrow>
          (case i of None \<Rightarrow> None
           | Some k \<Rightarrow> if 0 \<le> k \<and> k < int (length xs) then Some (xs ! nat k) else None))"

subsection \<open>View derivation\<close>

text \<open>
  \<^verbatim>\<open>getWinner\<close> (lines 59-74). The argument is optional; \<^verbatim>\<open>game || socketStore?.game\<close>
  falls back to the store. The result is \<^verbatim>\<open>null\<close> unless the status is \<^verbatim>\<open>"ended"\<close>, and
  otherwise \<^verbatim>\<open>players?.[currentPlayerIndex]\<close>, which is \<^verbatim>\<open>undefined\<close> out of range.
\<close>

definition getWinner :: "Game option \<Rightarrow> SocketStore \<Rightarrow> PlayerData js" where
  "getWinner g s =
     (let gameFallback = (case g of Some g' \<Rightarrow> Some g' | None \<Rightarrow> game s) in
      case gameFallback of
        None \<Rightarrow> Null
      | Some gf \<Rightarrow>
          if status gf \<noteq> Some ''ended'' then Null
          else (case index (players gf) (currentPlayerIndex gf) of
                  None \<Rightarrow> Undefined
                | Some winnerPlayer \<Rightarrow> Obj winnerPlayer))"

text \<open>
  \<^verbatim>\<open>getCurrentPlayer\<close> (lines 76-84): the first player of the given list, or of the
  store's list, whose id is the local player's id; \<^verbatim>\<open>undefined\<close> when there is none.
\<close>

definition getCurrentPlayer :: "PlayerData list option \<Rightarrow> SocketStore \<Rightarrow> PlayerData option" where
  "getCurrentPlayer ps s =
     (let playersFallback = (case ps of Some ps' \<Rightarrow> Some ps' | None \<Rightarrow> storePlayers s) in
      case playersFallback of
        None \<Rightarrow> None
      | Some xs \<Rightarrow> List.find (isLocal s) xs)"

text \<open>\<^verbatim>\<open>Array.prototype.findIndex\<close>: the index of the first match, or \<open>-1\<close>.\<close>

fun findIndex :: "('a \<Rightarrow> bool) \<Rightarrow> 'a list \<Rightarrow> int" where
  "findIndex P [] = - 1"
| "findIndex P (x # xs) =
     (if P x then 0 else (let r = findIndex P xs in if r = - 1 then - 1 else r + 1))"

text \<open>
  \<^verbatim>\<open>Array.prototype.slice(start, end)\<close>: a negative bound counts from the end, and both
  bounds are clamped to the array.
\<close>

definition slice :: "'a list \<Rightarrow> int \<Rightarrow> int \<Rightarrow> 'a list" where
  "slice xs start stop =
     (let n = int (length xs);
          k = (if start < 0 then max (n + start) 0 else min start n);
          final = (if stop < 0 then max (n + stop) 0 else min stop n)
      in take (nat (final - k)) (drop (nat k) xs))"

text \<open>
  \<^verbatim>\<open>getOtherPlayers\<close>, lines 87-107: the value of the local variable \<^verbatim>\<open>otherPlayers\<close>
  before the padding. Without a players array both slices are \<^verbatim>\<open>undefined\<close> and the
  result is \<^verbatim>\<open>[]\<close>.
\<close>

definition rotatedPlayers :: "SocketStore \<Rightarrow> PlayerData list" where
  "rotatedPlayers s =
     (case storePlayers s of
        None \<Rightarrow> []
      | Some ps \<Rightarrow>
          (let totalPlayers = int (length ps);
               found = findIndex (isLocal s) ps;
               currentPlayerIndex' = (if found = - 1 then totalPlayers else found);
               otherPlayersBeforeCurrentPlayer = slice ps 0 currentPlayerIndex';
               otherPlayersAfterCurrentPlayer = slice ps (currentPlayerIndex' + 1) (int (length ps))
           in otherPlayersAfterCurrentPlayer @ otherPlayersBeforeCurrentPlayer))"

text \<open>\<^verbatim>\<open>otherPlayers[k]\<close>: reading past the end of an array gives \<^verbatim>\<open>undefined\<close>.\<close>

definition element :: "'a list \<Rightarrow> int \<Rightarrow> 'a js" where
  "element xs k = (case index (Some xs) (Some k) of None \<Rightarrow> Undefined | Some x \<Rightarrow> Obj x)"

text \<open>
  \<^verbatim>\<open>getOtherPlayers\<close>, lines 109-125. \<^verbatim>\<open>totalPlayers\<close> is \<^verbatim>\<open>undefined\<close> without a
  players array, and \<^verbatim>\<open>undefined <= 4\<close> is false.
\<close>

definition getOtherPlayers :: "SocketStore \<Rightarrow> PlayerData js list" where
  "getOtherPlayers s =
     (let otherPlayers = rotatedPlayers s in
      case storePlayers s of
        None \<Rightarrow> map Obj otherPlayers
      | Some ps \<Rightarrow>
          if int (length ps) \<le> 4 then
            [element otherPlayers 0, EmptyObj,
             element otherPlayers 1, EmptyObj,
             element otherPlayers 2, EmptyObj,
             element otherPlayers 3]
          else map Obj otherPlayers)"

subsection \<open>Effects\<close>

text \<open>
  A request sent with \<^verbatim>\<open>SocketService.emit\<close>: the event name with its payload
  (\<^verbatim>\<open>gameId\<close>; \<^verbatim>\<open>gameId\<close>, \<^verbatim>\<open>cardIds\<close>, \<^verbatim>\<open>selectedColor\<close>; \<^verbatim>\<open>gameId\<close>, \<^verbatim>\<open>playerStatus\<close>).
\<close>

datatype Request =
  ToggleReady string
| PutCard string "string list" string
| ChangePlayerStatus string string

text \<open>
  What the hook does to the outside, in order: a request sent, a call of
  \<^verbatim>\<open>SocketService.getPlayerData\<close>, a call of one of the store's setters, and a call of
  the callback \<^verbatim>\<open>fn\<close>, recorded with the store the callback finds.
\<close>

datatype Event =
  Emit Request
| GetPlayerData
| SetGameData Game
| SetPlayerData Player
| AddChatMessage string string
| Invoked SocketStore

record World =
  store :: SocketStore
  trace :: "Event list"

text \<open>
  How a call ends: \<^verbatim>\<open>TypeError\<close> is thrown by the language (spreading \<^verbatim>\<open>undefined\<close>
  into an array), \<open>Rejected\<close> is the rejection of an awaited promise of the transport.
\<close>

datatype error = TypeError | Rejected string

definition emit :: "Request \<Rightarrow> World \<Rightarrow> World" where
  "emit r w = w\<lparr>trace := trace w @ [Emit r]\<rparr>"

text \<open>
  Modelled from the spec: the setters of the store (\<^verbatim>\<open>@/store/Socket\<close>, not part of
  the source). \<^verbatim>\<open>setGameData\<close> and \<^verbatim>\<open>setPlayerData\<close> replace the store's game and
  local player wholesale; \<^verbatim>\<open>addChatMessage\<close> appends the message to the chat of that
  id in the store's chat collection, which then holds a chat with the message.
\<close>

definition setGameData :: "Game \<Rightarrow> World \<Rightarrow> World" where
  "setGameData g w = w\<lparr>store := (store w)\<lparr>game := Some g\<rparr>, trace := trace w @ [SetGameData g]\<rparr>"

definition setPlayerData :: "Player \<Rightarrow> World \<Rightarrow> World" where
  "setPlayerData p w =
     w\<lparr>store := (store w)\<lparr>player := Some p\<rparr>, trace := trace w @ [SetPlayerData p]\<rparr>"

definition appendMessage :: "string \<Rightarrow> string \<Rightarrow> (string \<times> Chat) list \<Rightarrow> (string \<times> Chat) list" where
  "appendMessage chatId message cs =
     (case map_of cs chatId of
        None \<Rightarrow> cs @ [(chatId, \<lparr>id_chat = chatId, messages = [message]\<rparr>)]
      | Some _ \<Rightarrow>
          map (\<lambda>(k, c). if k = chatId then (k, c\<lparr>messages := messages c @ [message]\<rparr>) else (k, c)) cs)"

definition addChatMessage :: "string \<Rightarrow> string \<Rightarrow> World \<Rightarrow> World" where
  "addChatMessage chatId message w =
     w\<lparr>store := (store w)\<lparr>chats := appendMessage chatId message (chats (store w))\<rparr>,
       trace := trace w @ [AddChatMessage chatId message]\<rparr>"

text \<open>The call \<^verbatim>\<open>fn()\<close> of the caller's callback.\<close>

definition invoke :: "World \<Rightarrow> World" where
  "invoke w = w\<lparr>trace := trace w @ [Invoked (store w)]\<rparr>"

fun isInvoked :: "Event \<Rightarrow> bool" where
  "isInvoked (Invoked _) = True"
| "isInvoked _ = False"

fun isStoreWrite :: "Event \<Rightarrow> bool" where
  "isStoreWrite (SetGameData _) = True"
| "isStoreWrite (SetPlayerData _) = True"
| "isStoreWrite (AddChatMessage _ _) = True"
| "isStoreWrite _ = False"

subsection \<open>Action dispatchers\<close>

text \<open>
  \<^verbatim>\<open>toggleReady\<close> (lines 139-156) is not \<^verbatim>\<open>async\<close>: it sends the request, does not
  wait for the promise, and writes the store before it returns. \<^verbatim>\<open>{ ...socketStore?.game }\<close>
  is the empty object without a game, and \<^verbatim>\<open>lastState.players || []\<close> is then \<^verbatim>\<open>[]\<close>.
\<close>

definition toggleReady :: "string \<Rightarrow> World \<Rightarrow> (error + unit) \<times> World" where
  "toggleReady gameId w =
     (let w1 = emit (ToggleReady gameId) w;
          s = store w1;
          lastState = (case game s of None \<Rightarrow> emptyObject | Some g \<Rightarrow> g);
          lastState' = lastState\<lparr>players :=
            Some (map (\<lambda>p. if isLocal s p then p\<lparr>ready := \<not> ready p\<rparr> else p)
                    (case players lastState of None \<Rightarrow> [] | Some ps \<Rightarrow> ps))\<rparr>
      in (Inr (), setGameData lastState' w1))"

text \<open>
  The loop \<^verbatim>\<open>cardIds.forEach\<close> of \<^verbatim>\<open>putCard\<close> (lines 178-186): for each id in turn, the
  first card of the hand with that id is pushed onto \<^verbatim>\<open>cards\<close>, if there is one.
\<close>

fun collectCards :: "CardData list \<Rightarrow> string list \<Rightarrow> CardData list \<Rightarrow> CardData list" where
  "collectCards hand [] cards = cards"
| "collectCards hand (cardId # rest) cards =
     (case List.find (\<lambda>c. id_card c = cardId) hand of
        None \<Rightarrow> collectCards hand rest cards
      | Some c \<Rightarrow> collectCards hand rest (cards @ [c]))"

text \<open>
  \<^verbatim>\<open>putCard\<close> (lines 162-206). The request is sent first. Without a local player among
  the store's players the function returns. Otherwise the argument of \<^verbatim>\<open>setGameData\<close> is
  built: the game's fields, \<^verbatim>\<open>players\<close> with the local player's hand filtered, and
  \<^verbatim>\<open>usedCards\<close> as \<^verbatim>\<open>[...cards, ...socketStore?.game?.usedCards]\<close>, which throws a
  \<^verbatim>\<open>TypeError\<close> when the game has no \<^verbatim>\<open>usedCards\<close>, before the setter is called.
\<close>

definition putCard :: "string \<Rightarrow> string list \<Rightarrow> string \<Rightarrow> World \<Rightarrow> (error + unit) \<times> World" where
  "putCard gameId cardIds selectedColor w =
     (let w1 = emit (PutCard gameId cardIds selectedColor) w;
          s = store w1
      in case game s of
           None \<Rightarrow> (Inr (), w1)
         | Some g \<Rightarrow>
             (case players g of
                None \<Rightarrow> (Inr (), w1)
              | Some ps \<Rightarrow>
                  (case List.find (isLocal s) ps of
                     None \<Rightarrow> (Inr (), w1)
                   | Some found \<Rightarrow>
                       (let cards = collectCards (handCards found) cardIds [];
                            players' = map (\<lambda>p.
                              if isLocal s p
                              then p\<lparr>handCards :=
                                filter (\<lambda>handCard. id_card handCard \<notin> set cardIds) (handCards p)\<rparr>
                              else p) ps
                        in case usedCards g of
                             None \<Rightarrow> (Inl TypeError, w1)
                           | Some used \<Rightarrow>
                               (Inr (), setGameData
                                  (g\<lparr>players := Some players', usedCards := Some (cards @ used)\<rparr>) w1)))))"

text \<open>
  \<^verbatim>\<open>toggleOnlineStatus\<close> (lines 208-225) is \<^verbatim>\<open>async\<close>. It runs up to the \<^verbatim>\<open>await\<close>
  (the request is sent), and continues when the promise of the request settles: a
  rejection ends the call with that error, a response lets the rest run. The rest sets
  \<^verbatim>\<open>status\<close> of the local player's object in place and hands the copy of the game to
  \<^verbatim>\<open>setGameData\<close>. The value of the response is not used.
\<close>

definition toggleOnlineStatus_request :: "string \<Rightarrow> World \<Rightarrow> World" where
  "toggleOnlineStatus_request gameId w = emit (ChangePlayerStatus gameId ''online'') w"

definition toggleOnlineStatus_continue :: "error + unit \<Rightarrow> World \<Rightarrow> (error + unit) \<times> World" where
  "toggleOnlineStatus_continue response w =
     (case response of
        Inl e \<Rightarrow> (Inl e, w)
      | Inr _ \<Rightarrow>
          (let s = store w;
               lastState = (case game s of None \<Rightarrow> emptyObject | Some g \<Rightarrow> g);
               lastState' = lastState\<lparr>players :=
                 Some (map (\<lambda>p. if isLocal s p then p\<lparr>status_player := ''online''\<rparr> else p)
                         (case players lastState of None \<Rightarrow> [] | Some ps \<Rightarrow> ps))\<rparr>
           in (Inr (), setGameData lastState' w)))"

definition toggleOnlineStatus :: "string \<Rightarrow> error + unit \<Rightarrow> World \<Rightarrow> (error + unit) \<times> World" where
  "toggleOnlineStatus gameId response w =
     toggleOnlineStatus_continue response (toggleOnlineStatus_request gameId w)"

subsection \<open>Event subscribers\<close>

text \<open>
  The handlers that \<^verbatim>\<open>onGameStart\<close> (lines 234-240), \<^verbatim>\<open>onNewChatMessage\<close> (lines
  242-250) and \<^verbatim>\<open>onReconnect\<close> (lines 284-292) register, applied to one received event.
  The callback of \<^verbatim>\<open>onNewChatMessage\<close> is optional. The handler of \<^verbatim>\<open>reconnect\<close> is
  \<^verbatim>\<open>async\<close>: it calls \<^verbatim>\<open>getPlayerData\<close> and continues when that promise settles.
\<close>

definition onGameStart_handler :: "Game \<Rightarrow> World \<Rightarrow> World" where
  "onGameStart_handler g w = invoke (setGameData g w)"

definition onNewChatMessage_handler :: "bool \<Rightarrow> string \<Rightarrow> string \<Rightarrow> World \<Rightarrow> World" where
  "onNewChatMessage_handler fn chatId message w =
     (let w1 = addChatMessage chatId message w in if fn then invoke w1 else w1)"

definition onReconnect_request :: "World \<Rightarrow> World" where
  "onReconnect_request w = w\<lparr>trace := trace w @ [GetPlayerData]\<rparr>"

definition onReconnect_continue :: "error + Player \<Rightarrow> World \<Rightarrow> (error + unit) \<times> World" where
  "onReconnect_continue response w =
     (case response of
        Inl e \<Rightarrow> (Inl e, w)
      | Inr playerData \<Rightarrow> (Inr (), invoke (setPlayerData playerData w)))"

definition onReconnect_handler :: "error + Player \<Rightarrow> World \<Rightarrow> (error + unit) \<times> World" where
  "onReconnect_handler response w = onReconnect_continue response (onReconnect_request w)"

subsection \<open>Example states\<close>

text \<open>
  The game of the spec's end-to-end example: two players, the local player \<open>p2\<close> in the
  second seat, here with two cards in hand and one card already played.
\<close>

definition ex_c0 :: CardData where
  "ex_c0 = \<lparr>id_card = ''c0'', attrs_card = ''blue 7''\<rparr>"

definition ex_c1 :: CardData where
  "ex_c1 = \<lparr>id_card = ''c1'', attrs_card = ''red 7''\<rparr>"

definition ex_c2 :: CardData where
  "ex_c2 = \<lparr>id_card = ''c2'', attrs_card = ''red 2''\<rparr>"

definition ex_p1 :: PlayerData where
  "ex_p1 = \<lparr>id_player = ''p1'', ready = False, status_player = ''online'',
     handCards = [], attrs_player = ''Ann''\<rparr>"

definition ex_p2 :: PlayerData where
  "ex_p2 = \<lparr>id_player = ''p2'', ready = False, status_player = ''afk'',
     handCards = [ex_c1, ex_c2], attrs_player = ''Bob''\<rparr>"

definition ex_game :: Game where
  "ex_game = \<lparr>status = Some ''started'', currentPlayerIndex = Some 1,
     players = Some [ex_p1, ex_p2], usedCards = Some [ex_c0], attrs_game = Some ''room 1''\<rparr>"

definition ex_local :: Player where
  "ex_local = \<lparr>id_local = ''p2'', attrs_local = ''Bob''\<rparr>"

definition ex_world :: World where
  "ex_world = \<lparr>store = \<lparr>game = Some ex_game, player = Some ex_local, chats = []\<rparr>, trace = []\<rparr>"

text \<open>The same store before a game is loaded, and with a local player who has no seat.\<close>

definition ex_world_nogame :: World where
  "ex_world_nogame = \<lparr>store = \<lparr>game = None, player = Some ex_local, chats = []\<rparr>, trace = []\<rparr>"

definition ex_spectator :: Player where
  "ex_spectator = \<lparr>id_local = ''p9'', attrs_local = ''Zoe''\<rparr>"

definition ex_world_spectator :: World where
  "ex_world_spectator =
     \<lparr>store = \<lparr>game = Some ex_game, player = Some ex_spectator, chats = []\<rparr>, trace = []\<rparr>"

text \<open>A seat of a larger table: a player with the given id and nothing in hand.\<close>

definition seat :: "string \<Rightarrow> PlayerData" where
  "seat i = \<lparr>id_player = i, ready = True, status_player = ''online'',
     handCards = [], attrs_player = []\<rparr>"

definition table :: "string list \<Rightarrow> string \<Rightarrow> SocketStore" where
  "table ids me =
     \<lparr>game = Some \<lparr>status = Some ''started'', currentPlayerIndex = Some 0,
        players = Some (map seat ids), usedCards = Some [], attrs_game = None\<rparr>,
      player = Some \<lparr>id_local = me, attrs_local = []\<rparr>, chats = []\<rparr>"

section \<open>Properties\<close>

lemmas ex_defs = ex_c0_def ex_c1_def ex_c2_def ex_p1_def ex_p2_def ex_game_def ex_local_def
  ex_world_def ex_world_nogame_def ex_spectator_def ex_world_spectator_def seat_def table_def

subsection \<open>The winner\<close>

text \<open>
  Claim C5. For every game, \<^verbatim>\<open>getWinner(game)\<close> returns \<^verbatim>\<open>null\<close> whenever the game's
  status is not \<^verbatim>\<open>"ended"\<close>; whenever the status is \<^verbatim>\<open>"ended"\<close> and
  \<^verbatim>\<open>currentPlayerIndex\<close> is a valid index into \<^verbatim>\<open>players\<close>, it returns
  \<^verbatim>\<open>players[currentPlayerIndex]\<close>. The store plays no part when a game is passed.
\<close>

theorem getWinner_spec:
  "(status g \<noteq> Some ''ended'' \<longrightarrow> getWinner (Some g) s = Null) \<and>
   (status g = Some ''ended'' \<and> players g = Some ps \<and> currentPlayerIndex g = Some i \<and>
      0 \<le> i \<and> i < int (length ps)
    \<longrightarrow> getWinner (Some g) s = Obj (ps ! nat i))"
  by (simp add: getWinner_def index_def)

theorem getWinner_spec_witness:
  "getWinner (Some ex_game) (store ex_world) = Null \<and>
   getWinner (Some (ex_game\<lparr>status := Some ''ended''\<rparr>)) (store ex_world) = Obj ex_p2"
  using getWinner_spec [of ex_game "store ex_world" "[ex_p1, ex_p2]" 1]
    getWinner_spec [of "ex_game\<lparr>status := Some ''ended''\<rparr>" "store ex_world" "[ex_p1, ex_p2]" 1]
  by (simp add: ex_game_def)

subsection \<open>The opponents in table order\<close>

text \<open>Facts about \<open>findIndex\<close> and \<open>slice\<close> on the arguments the hook passes.\<close>

lemma findIndex_range: "- 1 \<le> findIndex P xs \<and> findIndex P xs < int (length xs)"
  by (induction xs) (auto simp: Let_def)

lemma findIndex_none: "(findIndex P xs = - 1) = (\<forall>x\<in>set xs. \<not> P x)"
proof (induction xs)
  case Nil
  show ?case by simp
next
  case (Cons x xs)
  have "- 1 \<le> findIndex P xs" by (simp add: findIndex_range)
  with Cons show ?case by (auto simp: Let_def)
qed

lemma findIndex_first:
  "i < length xs \<Longrightarrow> P (xs ! i) \<Longrightarrow> \<forall>j<i. \<not> P (xs ! j) \<Longrightarrow> findIndex P xs = int i"
proof (induction xs arbitrary: i)
  case Nil
  then show ?case by simp
next
  case (Cons x xs)
  show ?case
  proof (cases i)
    case 0
    with Cons.prems show ?thesis by simp
  next
    case (Suc k)
    with Cons.prems have "\<not> P x" by auto
    moreover from Suc Cons.prems have "findIndex P xs = int k"
      by (intro Cons.IH) auto
    ultimately show ?thesis using Suc by (simp add: Let_def)
  qed
qed

lemma slice_prefix: "k \<le> length xs \<Longrightarrow> slice xs 0 (int k) = take k xs"
  by (simp add: slice_def Let_def min_def)

lemma slice_suffix: "k \<le> length xs \<Longrightarrow> slice xs (int k + 1) (int (length xs)) = drop (Suc k) xs"
  by (auto simp: slice_def Let_def min_def nat_add_distrib)

lemma rotated_found:
  assumes "storePlayers s = Some ps" "i < length ps" "isLocal s (ps ! i)"
    "\<forall>j<i. \<not> isLocal s (ps ! j)"
  shows "rotatedPlayers s = drop (Suc i) ps @ take i ps"
proof -
  have "findIndex (isLocal s) ps = int i"
    using assms by (intro findIndex_first) auto
  then show ?thesis
    using assms by (simp add: rotatedPlayers_def Let_def slice_prefix slice_suffix)
qed

lemma rotated_not_found:
  assumes "storePlayers s = Some ps" "\<forall>p\<in>set ps. \<not> isLocal s p"
  shows "rotatedPlayers s = ps"
proof -
  have "findIndex (isLocal s) ps = - 1"
    using assms by (simp add: findIndex_none)
  then show ?thesis
    using assms slice_prefix [of "length ps" ps] slice_suffix [of "length ps" ps]
    by (simp add: rotatedPlayers_def Let_def)
qed

lemma rotate_after_seat:
  assumes "i < length ps"
  shows "(drop (Suc i) ps @ take i ps) @ [ps ! i] = rotate (Suc i) ps"
proof (cases "Suc i = length ps")
  case True
  then have "rotate (Suc i) ps = ps" by (simp add: rotate_drop_take)
  moreover have "take i ps @ [ps ! i] = ps"
    using True assms by (metis take_Suc_conv_app_nth take_all order_refl)
  ultimately show ?thesis using True by simp
next
  case False
  with assms have "Suc i mod length ps = Suc i" by simp
  then have "rotate (Suc i) ps = drop (Suc i) ps @ take (Suc i) ps"
    using rotate_drop_take [of "Suc i" ps] by simp
  then show ?thesis using assms by (simp add: take_Suc_conv_app_nth)
qed

lemma mset_without_seat:
  assumes "i < length ps"
  shows "mset (drop (Suc i) ps @ take i ps) = mset ps - {#ps ! i#}"
proof -
  have "ps = take i ps @ ps ! i # drop (Suc i) ps"
    using assms by (simp add: id_take_nth_drop)
  then have "mset ps = mset (take i ps) + {#ps ! i#} + mset (drop (Suc i) ps)"
    by (metis mset.simps(2) mset_append union_mset_add_mset_right add.right_neutral union_mset_add_mset_left add_mset_add_single)
  then show ?thesis by simp
qed

lemma others_not_local:
  assumes "i < length ps" "isLocal s (ps ! i)" "distinct (map id_player ps)"
    "p \<in> set (drop (Suc i) ps @ take i ps)"
  shows "\<not> isLocal s p"
proof
  assume loc: "isLocal s p"
  from assms(4) consider "p \<in> set (drop (Suc i) ps)" | "p \<in> set (take i ps)"
    by auto
  then obtain j where j: "j < length ps" "j \<noteq> i" "p = ps ! j"
  proof cases
    case 1
    then obtain k where "k < length ps - Suc i" "p = ps ! (Suc i + k)"
      by (auto simp: in_set_conv_nth)
    then have "Suc i + k < length ps" "Suc i + k \<noteq> i" by simp_all
    with \<open>p = ps ! (Suc i + k)\<close> that show ?thesis by blast
  next
    case 2
    then obtain k where "k < i" "p = ps ! k"
      by (auto simp: in_set_conv_nth)
    with assms(1) have "k < length ps" "k \<noteq> i" by simp_all
    with \<open>p = ps ! k\<close> that show ?thesis by blast
  qed
  from loc assms(2) j have "id_player (ps ! j) = id_player (ps ! i)"
    by (auto simp: isLocal_def split: option.splits)
  with assms(1,3) j show False
    by (metis distinct_conv_nth length_map nth_map)
qed

text \<open>
  Claim C2. For every players list and local player id, the result of
  \<^verbatim>\<open>otherPlayers()\<close> before padding is the sublist of players after the local
  player's index followed by the sublist before it: appending the local player gives
  the seating order rotated to start right after the local player's seat, the result
  holds every player but that one seat, and no player with the local id when ids are
  unique. If no player has the local player's id, the index is the length of the list
  and the result is the full players list in order. The local player's index is the
  first \<open>i\<close> with \<open>isLocal s (ps ! i)\<close>, as \<^verbatim>\<open>findIndex\<close> finds it.
\<close>

theorem rotatedPlayers_spec:
  assumes "storePlayers s = Some ps"
  shows "(i < length ps \<and> isLocal s (ps ! i) \<and> (\<forall>j<i. \<not> isLocal s (ps ! j)) \<longrightarrow>
            rotatedPlayers s = drop (Suc i) ps @ take i ps \<and>
            rotatedPlayers s @ [ps ! i] = rotate (Suc i) ps \<and>
            mset (rotatedPlayers s) = mset ps - {#ps ! i#} \<and>
            (distinct (map id_player ps) \<longrightarrow> (\<forall>p\<in>set (rotatedPlayers s). \<not> isLocal s p))) \<and>
         ((\<forall>p\<in>set ps. \<not> isLocal s p) \<longrightarrow> rotatedPlayers s = ps)"
proof (intro conjI impI)
  assume found: "i < length ps \<and> isLocal s (ps ! i) \<and> (\<forall>j<i. \<not> isLocal s (ps ! j))"
  then show eq: "rotatedPlayers s = drop (Suc i) ps @ take i ps"
    using assms by (simp add: rotated_found)
  from found show "rotatedPlayers s @ [ps ! i] = rotate (Suc i) ps"
    unfolding eq by (simp only: rotate_after_seat)
  from found show "mset (rotatedPlayers s) = mset ps - {#ps ! i#}"
    unfolding eq by (simp only: mset_without_seat)
  assume "distinct (map id_player ps)"
  with found show "\<forall>p\<in>set (rotatedPlayers s). \<not> isLocal s p"
    unfolding eq using others_not_local by blast
next
  assume "\<forall>p\<in>set ps. \<not> isLocal s p"
  then show "rotatedPlayers s = ps"
    using assms by (simp add: rotated_not_found)
qed

theorem rotatedPlayers_spec_witness:
  "rotatedPlayers (table [''A'', ''B'', ''C'', ''D''] ''B'') = [seat ''C'', seat ''D'', seat ''A''] \<and>
   rotatedPlayers (table [''A'', ''B'', ''C'', ''D''] ''Z'') =
     [seat ''A'', seat ''B'', seat ''C'', seat ''D'']"
proof -
  let ?ps = "map seat [''A'', ''B'', ''C'', ''D'']"
  have B: "storePlayers (table [''A'', ''B'', ''C'', ''D''] ''B'') = Some ?ps"
    and Z: "storePlayers (table [''A'', ''B'', ''C'', ''D''] ''Z'') = Some ?ps"
    by (simp_all add: storePlayers_def table_def)
  have "(1::nat) < length ?ps \<and> isLocal (table [''A'', ''B'', ''C'', ''D''] ''B'') (?ps ! 1) \<and>
      (\<forall>j<1. \<not> isLocal (table [''A'', ''B'', ''C'', ''D''] ''B'') (?ps ! j))"
    by (simp add: isLocal_def table_def seat_def)
  with rotatedPlayers_spec [OF B, of 1]
  have "rotatedPlayers (table [''A'', ''B'', ''C'', ''D''] ''B'') = drop (Suc 1) ?ps @ take 1 ?ps"
    by blast
  moreover have "\<forall>p\<in>set ?ps. \<not> isLocal (table [''A'', ''B'', ''C'', ''D''] ''Z'') p"
    by (simp add: isLocal_def table_def seat_def)
  with rotatedPlayers_spec [OF Z, of 0]
  have "rotatedPlayers (table [''A'', ''B'', ''C'', ''D''] ''Z'') = ?ps"
    by blast
  ultimately show ?thesis by simp
qed

text \<open>The length of the rotated list: one less than the table when the local player is seated.\<close>

lemma length_rotated:
  assumes "storePlayers s = Some ps"
  shows "length (rotatedPlayers s) = (if \<exists>p\<in>set ps. isLocal s p then length ps - 1 else length ps)"
proof (cases "\<exists>p\<in>set ps. isLocal s p")
  case False
  then show ?thesis using assms by (simp add: rotated_not_found)
next
  case True
  then have "List.find (isLocal s) ps \<noteq> None" by (auto simp: find_None_iff)
  then obtain x where "List.find (isLocal s) ps = Some x" by blast
  then obtain i where i: "i < length ps" "isLocal s (ps ! i)" "\<forall>j<i. \<not> isLocal s (ps ! j)"
    by (auto simp: find_Some_iff)
  then have "rotatedPlayers s = drop (Suc i) ps @ take i ps"
    using assms by (simp add: rotated_found)
  with i True show ?thesis by auto
qed

lemma element_nth: "element xs (int k) = (if k < length xs then Obj (xs ! k) else Undefined)"
  by (simp add: element_def index_def)

text \<open>
  Claim C3, as stated, says that above four players the result has length count minus
  one. With five players and a local player who is not among them, \<^verbatim>\<open>findIndex\<close> gives
  \<open>-1\<close>, the index becomes the length, and the result has all five players.
\<close>

theorem getOtherPlayers_unseated_counterexample:
  "storePlayers (table [''A'', ''B'', ''C'', ''D'', ''E''] ''Z'')
     = Some [seat ''A'', seat ''B'', seat ''C'', seat ''D'', seat ''E''] \<and>
   getOtherPlayers (table [''A'', ''B'', ''C'', ''D'', ''E''] ''Z'')
     = [Obj (seat ''A''), Obj (seat ''B''), Obj (seat ''C''), Obj (seat ''D''), Obj (seat ''E'')] \<and>
   length (getOtherPlayers (table [''A'', ''B'', ''C'', ''D'', ''E''] ''Z'')) \<noteq> 5 - 1"
  by (simp add: getOtherPlayers_def rotatedPlayers_def storePlayers_def table_def seat_def
      isLocal_def slice_def Let_def)

text \<open>
  Claim C3, amended. For every game with at most 4 players, \<^verbatim>\<open>otherPlayers()\<close> has
  exactly 7 positions: position \<open>2k\<close> (0, 2, 4, 6) holds the \<open>k\<close>-th rotated opponent, or
  \<^verbatim>\<open>undefined\<close> when there is no \<open>k\<close>-th opponent, all opponents are among them, and
  positions 1, 3, 5 hold the placeholder \<^verbatim>\<open>{}\<close>. For more than 4 players no padding
  is applied: the result is the rotated list, of length count minus 1 when the local
  player is seated and of length count when not.
\<close>

theorem getOtherPlayers_spec:
  assumes "storePlayers s = Some ps"
  shows "(length ps \<le> 4 \<longrightarrow>
            length (getOtherPlayers s) = 7 \<and>
            length (rotatedPlayers s) \<le> 4 \<and>
            (\<forall>k<4. getOtherPlayers s ! (2 * k) =
               (if k < length (rotatedPlayers s) then Obj (rotatedPlayers s ! k) else Undefined)) \<and>
            (\<forall>k<3. getOtherPlayers s ! (2 * k + 1) = EmptyObj)) \<and>
         (4 < length ps \<longrightarrow>
            getOtherPlayers s = map Obj (rotatedPlayers s) \<and>
            length (getOtherPlayers s) =
              (if \<exists>p\<in>set ps. isLocal s p then length ps - 1 else length ps))"
proof (intro conjI impI)
  assume small: "length ps \<le> 4"
  then have pad: "getOtherPlayers s =
      [element (rotatedPlayers s) 0, EmptyObj, element (rotatedPlayers s) 1, EmptyObj,
       element (rotatedPlayers s) 2, EmptyObj, element (rotatedPlayers s) 3]"
    using assms by (simp add: getOtherPlayers_def Let_def)
  show "length (getOtherPlayers s) = 7" by (simp add: pad)
  show "length (rotatedPlayers s) \<le> 4"
    using small length_rotated [OF assms] by (simp split: if_splits)
  have e: "element (rotatedPlayers s) 0 = (if 0 < length (rotatedPlayers s) then Obj (rotatedPlayers s ! 0) else Undefined)"
    "element (rotatedPlayers s) 1 = (if 1 < length (rotatedPlayers s) then Obj (rotatedPlayers s ! 1) else Undefined)"
    "element (rotatedPlayers s) 2 = (if 2 < length (rotatedPlayers s) then Obj (rotatedPlayers s ! 2) else Undefined)"
    "element (rotatedPlayers s) 3 = (if 3 < length (rotatedPlayers s) then Obj (rotatedPlayers s ! 3) else Undefined)"
    using element_nth [of "rotatedPlayers s" 0] element_nth [of "rotatedPlayers s" 1]
      element_nth [of "rotatedPlayers s" 2] element_nth [of "rotatedPlayers s" 3]
    by simp_all
  show "\<forall>k<4. getOtherPlayers s ! (2 * k) =
      (if k < length (rotatedPlayers s) then Obj (rotatedPlayers s ! k) else Undefined)"
  proof (intro allI impI)
    fix k :: nat
    assume "k < 4"
    then consider "k = 0" | "k = 1" | "k = 2" | "k = 3" by linarith
    then show "getOtherPlayers s ! (2 * k) =
        (if k < length (rotatedPlayers s) then Obj (rotatedPlayers s ! k) else Undefined)"
      by cases (simp_all add: pad e)
  qed
  show "\<forall>k<3. getOtherPlayers s ! (2 * k + 1) = EmptyObj"
  proof (intro allI impI)
    fix k :: nat
    assume "k < 3"
    then consider "k = 0" | "k = 1" | "k = 2" by linarith
    then show "getOtherPlayers s ! (2 * k + 1) = EmptyObj"
      by cases (simp_all add: pad)
  qed
next
  assume big: "4 < length ps"
  then show eq: "getOtherPlayers s = map Obj (rotatedPlayers s)"
    using assms by (simp add: getOtherPlayers_def)
  show "length (getOtherPlayers s) =
      (if \<exists>p\<in>set ps. isLocal s p then length ps - 1 else length ps)"
    unfolding eq using length_rotated [OF assms] by simp
qed

theorem getOtherPlayers_spec_witness:
  "getOtherPlayers (table [''A'', ''B'', ''C''] ''B'') ! 0 = Obj (seat ''C'') \<and>
   getOtherPlayers (table [''A'', ''B'', ''C''] ''B'') ! 1 = EmptyObj \<and>
   getOtherPlayers (table [''A'', ''B'', ''C''] ''B'') ! 2 = Obj (seat ''A'') \<and>
   getOtherPlayers (table [''A'', ''B'', ''C''] ''B'') ! 4 = Undefined \<and>
   length (getOtherPlayers (table [''A'', ''B'', ''C''] ''B'')) = 7 \<and>
   length (getOtherPlayers (table [''A'', ''B'', ''C'', ''D'', ''E''] ''B'')) = 4 \<and>
   length (getOtherPlayers (table [''A'', ''B'', ''C'', ''D'', ''E''] ''Z'')) = 5"
proof -
  let ?s3 = "table [''A'', ''B'', ''C''] ''B''"
  let ?s5 = "table [''A'', ''B'', ''C'', ''D'', ''E''] ''B''"
  let ?z5 = "table [''A'', ''B'', ''C'', ''D'', ''E''] ''Z''"
  have p3: "storePlayers ?s3 = Some (map seat [''A'', ''B'', ''C''])"
    and p5: "storePlayers ?s5 = Some (map seat [''A'', ''B'', ''C'', ''D'', ''E''])"
    and q5: "storePlayers ?z5 = Some (map seat [''A'', ''B'', ''C'', ''D'', ''E''])"
    by (simp_all add: storePlayers_def table_def)
  have r3: "rotatedPlayers ?s3 = [seat ''C'', seat ''A'']"
    by (simp add: rotatedPlayers_def storePlayers_def table_def seat_def isLocal_def slice_def Let_def)
  have loc: "(\<exists>p\<in>set (map seat [''A'', ''B'', ''C'', ''D'', ''E'']). isLocal ?s5 p)"
    "\<not> (\<exists>p\<in>set (map seat [''A'', ''B'', ''C'', ''D'', ''E'']). isLocal ?z5 p)"
    by (simp_all add: table_def seat_def isLocal_def)
  have "length (map seat [''A'', ''B'', ''C'']) \<le> 4" by simp
  with getOtherPlayers_spec [OF p3]
  have a: "length (getOtherPlayers ?s3) = 7"
    and b: "\<forall>k<4. getOtherPlayers ?s3 ! (2 * k) =
       (if k < length (rotatedPlayers ?s3) then Obj (rotatedPlayers ?s3 ! k) else Undefined)"
    and c: "\<forall>k<3. getOtherPlayers ?s3 ! (2 * k + 1) = EmptyObj"
    by blast+
  have "getOtherPlayers ?s3 ! (2 * 0) = Obj (seat ''C'')"
    "getOtherPlayers ?s3 ! (2 * 1) = Obj (seat ''A'')"
    "getOtherPlayers ?s3 ! (2 * 2) = Undefined"
    using b [rule_format, of 0] b [rule_format, of 1] b [rule_format, of 2]
    unfolding r3 by simp_all
  moreover have "getOtherPlayers ?s3 ! (2 * 0 + 1) = EmptyObj"
    using c [rule_format, of 0] by simp
  moreover have five: "4 < length (map seat [''A'', ''B'', ''C'', ''D'', ''E''])" by simp
  have "length (getOtherPlayers ?s5) =
      (if \<exists>p\<in>set (map seat [''A'', ''B'', ''C'', ''D'', ''E'']). isLocal ?s5 p
       then length (map seat [''A'', ''B'', ''C'', ''D'', ''E'']) - 1
       else length (map seat [''A'', ''B'', ''C'', ''D'', ''E'']))"
    using getOtherPlayers_spec [OF p5] five by blast
  then have "length (getOtherPlayers ?s5) = 4"
    unfolding if_P [OF loc(1)] by simp
  moreover have "length (getOtherPlayers ?z5) =
      (if \<exists>p\<in>set (map seat [''A'', ''B'', ''C'', ''D'', ''E'']). isLocal ?z5 p
       then length (map seat [''A'', ''B'', ''C'', ''D'', ''E'']) - 1
       else length (map seat [''A'', ''B'', ''C'', ''D'', ''E'']))"
    using getOtherPlayers_spec [OF q5] five by blast
  then have "length (getOtherPlayers ?z5) = 5"
    unfolding if_not_P [OF loc(2)] by simp
  ultimately show ?thesis using a by simp
qed

subsection \<open>The ready toggle\<close>

text \<open>
  The local player of a store, and the effect of \<open>toggleReady\<close> in one equation: the
  request is sent, then the store's game is replaced.
\<close>

lemma isLocal_cong: "player s' = player s \<Longrightarrow> isLocal s' = isLocal s"
  by (rule ext) (simp add: isLocal_def)

lemma find_map_update:
  assumes "\<And>p. P (f p) = P p"
  shows "List.find P (map (\<lambda>p. if P p then f p else p) ps) = map_option f (List.find P ps)"
  by (induction ps) (simp_all add: assms)

lemma isLocal_ready [simp]: "isLocal s (p\<lparr>ready := b\<rparr>) = isLocal s p"
  by (simp add: isLocal_def split: option.splits)

lemma isLocal_status [simp]: "isLocal s (p\<lparr>status_player := b\<rparr>) = isLocal s p"
  by (simp add: isLocal_def split: option.splits)

lemma isLocal_handCards [simp]: "isLocal s (p\<lparr>handCards := b\<rparr>) = isLocal s p"
  by (simp add: isLocal_def split: option.splits)

lemma seated_game:
  assumes "getCurrentPlayer None s = Some p"
  obtains g ps where "game s = Some g" "players g = Some ps" "List.find (isLocal s) ps = Some p"
  using assms by (auto simp: getCurrentPlayer_def storePlayers_def split: option.splits)

lemma toggleReady_result:
  "toggleReady gameId w =
     (Inr (),
      w\<lparr>store := (store w)\<lparr>game := Some
           ((case game (store w) of None \<Rightarrow> emptyObject | Some g \<Rightarrow> g)
              \<lparr>players := Some (map (\<lambda>p. if isLocal (store w) p then p\<lparr>ready := \<not> ready p\<rparr> else p)
                 (case storePlayers (store w) of None \<Rightarrow> [] | Some ps \<Rightarrow> ps))\<rparr>)\<rparr>,
        trace := trace w @ [Emit (ToggleReady gameId), SetGameData
           ((case game (store w) of None \<Rightarrow> emptyObject | Some g \<Rightarrow> g)
              \<lparr>players := Some (map (\<lambda>p. if isLocal (store w) p then p\<lparr>ready := \<not> ready p\<rparr> else p)
                 (case storePlayers (store w) of None \<Rightarrow> [] | Some ps \<Rightarrow> ps))\<rparr>)]\<rparr>)"
  by (simp add: toggleReady_def Let_def emit_def setGameData_def storePlayers_def emptyObject_def
      split: option.splits)

text \<open>
  Claim C4. After every call of \<^verbatim>\<open>toggleReady(gameId)\<close> with a game loaded and the
  local player seated, the local player's ready flag in the store is the negation of
  its value before the call. The call is one synchronous step: it takes no response
  of the server, and what it does is to send the request and then to write the store.
\<close>

theorem toggleReady_spec:
  assumes "getCurrentPlayer None (store w) = Some p"
  shows "fst (toggleReady gameId w) = Inr () \<and>
         getCurrentPlayer None (store (snd (toggleReady gameId w))) = Some (p\<lparr>ready := \<not> ready p\<rparr>) \<and>
         (\<exists>p'. getCurrentPlayer None (store (snd (toggleReady gameId w))) = Some p' \<and>
               ready p' = (\<not> ready p)) \<and>
         (\<exists>g'. game (store (snd (toggleReady gameId w))) = Some g' \<and>
               trace (snd (toggleReady gameId w)) =
                 trace w @ [Emit (ToggleReady gameId), SetGameData g'])"
proof -
  from assms obtain g ps where g: "game (store w) = Some g" "players g = Some ps"
    "List.find (isLocal (store w)) ps = Some p"
    by (rule seated_game)
  let ?f = "\<lambda>p. if isLocal (store w) p then p\<lparr>ready := \<not> ready p\<rparr> else p"
  have st: "store (snd (toggleReady gameId w)) = (store w)\<lparr>game := Some (g\<lparr>players := Some (map ?f ps)\<rparr>)\<rparr>"
    using g by (simp add: toggleReady_result storePlayers_def)
  have loc: "isLocal ((store w)\<lparr>game := Some (g\<lparr>players := Some (map ?f ps)\<rparr>)\<rparr>) = isLocal (store w)"
    by (rule isLocal_cong) simp
  have cur: "getCurrentPlayer None (store (snd (toggleReady gameId w))) = Some (p\<lparr>ready := \<not> ready p\<rparr>)"
    unfolding st
    using g(3) find_map_update [of "isLocal (store w)" "\<lambda>p. p\<lparr>ready := \<not> ready p\<rparr>" ps]
    by (simp add: getCurrentPlayer_def storePlayers_def loc)
  have tr: "trace (snd (toggleReady gameId w)) =
      trace w @ [Emit (ToggleReady gameId), SetGameData (g\<lparr>players := Some (map ?f ps)\<rparr>)]"
    using g by (simp add: toggleReady_result storePlayers_def)
  show ?thesis
    using cur tr st by (simp add: toggleReady_result)
qed

theorem toggleReady_spec_witness:
  "getCurrentPlayer None (store ex_world) = Some ex_p2 \<and> \<not> ready ex_p2 \<and>
   getCurrentPlayer None (store (snd (toggleReady ''g1'' ex_world))) = Some (ex_p2\<lparr>ready := True\<rparr>)"
proof -
  have seated: "getCurrentPlayer None (store ex_world) = Some ex_p2"
    by (simp add: getCurrentPlayer_def storePlayers_def isLocal_def ex_defs)
  moreover have "\<not> ready ex_p2" by (simp add: ex_defs)
  ultimately show ?thesis
    using toggleReady_spec [OF seated, of "''g1''"] by simp
qed

text \<open>
  Claim C10. \<^verbatim>\<open>toggleReady\<close> never throws, whatever the store holds, and always
  sends its request and then writes the store. When the store holds no game, the
  store's game becomes an object whose \<^verbatim>\<open>players\<close> is the empty array and that has no
  other field. When the local player is not seated, the players are written back as
  they were (the empty array when there were none).
\<close>

theorem toggleReady_total:
  "fst (toggleReady gameId w) = Inr () \<and>
   (\<exists>g'. game (store (snd (toggleReady gameId w))) = Some g' \<and>
      trace (snd (toggleReady gameId w)) = trace w @ [Emit (ToggleReady gameId), SetGameData g']) \<and>
   (game (store w) = None \<longrightarrow>
      snd (toggleReady gameId w) =
        w\<lparr>store := (store w)\<lparr>game := Some \<lparr>status = None, currentPlayerIndex = None,
             players = Some [], usedCards = None, attrs_game = None\<rparr>\<rparr>,
          trace := trace w @ [Emit (ToggleReady gameId),
             SetGameData \<lparr>status = None, currentPlayerIndex = None,
               players = Some [], usedCards = None, attrs_game = None\<rparr>]\<rparr>) \<and>
   (getCurrentPlayer None (store w) = None \<longrightarrow>
      storePlayers (store (snd (toggleReady gameId w))) =
        Some (case storePlayers (store w) of None \<Rightarrow> [] | Some ps \<Rightarrow> ps))"
proof (intro conjI impI)
  show "fst (toggleReady gameId w) = Inr ()" by (simp add: toggleReady_result)
  show "\<exists>g'. game (store (snd (toggleReady gameId w))) = Some g' \<and>
      trace (snd (toggleReady gameId w)) = trace w @ [Emit (ToggleReady gameId), SetGameData g']"
    by (simp add: toggleReady_result)
next
  assume "game (store w) = None"
  then show "snd (toggleReady gameId w) =
        w\<lparr>store := (store w)\<lparr>game := Some \<lparr>status = None, currentPlayerIndex = None,
             players = Some [], usedCards = None, attrs_game = None\<rparr>\<rparr>,
          trace := trace w @ [Emit (ToggleReady gameId),
             SetGameData \<lparr>status = None, currentPlayerIndex = None,
               players = Some [], usedCards = None, attrs_game = None\<rparr>]\<rparr>"
    by (simp add: toggleReady_result storePlayers_def emptyObject_def)
next
  assume unseated: "getCurrentPlayer None (store w) = None"
  have "map (\<lambda>p. if isLocal (store w) p then p\<lparr>ready := \<not> ready p\<rparr> else p) ps = ps"
    if "storePlayers (store w) = Some ps" for ps
  proof -
    from that unseated have "\<forall>p\<in>set ps. \<not> isLocal (store w) p"
      by (auto simp: getCurrentPlayer_def find_None_iff)
    then show ?thesis by (simp add: map_idI)
  qed
  then show "storePlayers (store (snd (toggleReady gameId w))) =
        Some (case storePlayers (store w) of None \<Rightarrow> [] | Some ps \<Rightarrow> ps)"
    by (simp add: toggleReady_result storePlayers_def split: option.splits)
qed

theorem toggleReady_total_witness:
  "game (store ex_world_nogame) = None \<and>
   toggleReady ''g1'' ex_world_nogame =
     (Inr (), \<lparr>store = \<lparr>game = Some \<lparr>status = None, currentPlayerIndex = None,
                  players = Some [], usedCards = None, attrs_game = None\<rparr>,
                player = Some ex_local, chats = []\<rparr>,
              trace = [Emit (ToggleReady ''g1''),
                SetGameData \<lparr>status = None, currentPlayerIndex = None,
                  players = Some [], usedCards = None, attrs_game = None\<rparr>]\<rparr>) \<and>
   getCurrentPlayer None (store ex_world_spectator) = None \<and>
   storePlayers (store (snd (toggleReady ''g1'' ex_world_spectator))) = Some [ex_p1, ex_p2]"
proof -
  have nogame: "game (store ex_world_nogame) = None"
    by (simp add: ex_world_nogame_def)
  have unseated: "getCurrentPlayer None (store ex_world_spectator) = None"
    by (simp add: getCurrentPlayer_def storePlayers_def isLocal_def ex_defs)
  have ps: "storePlayers (store ex_world_spectator) = Some [ex_p1, ex_p2]"
    by (simp add: storePlayers_def ex_world_spectator_def ex_game_def)
  have "toggleReady ''g1'' ex_world_nogame =
      (fst (toggleReady ''g1'' ex_world_nogame), snd (toggleReady ''g1'' ex_world_nogame))"
    by simp
  with toggleReady_total [of "''g1''" ex_world_nogame] nogame
  have "toggleReady ''g1'' ex_world_nogame =
     (Inr (), ex_world_nogame\<lparr>store := (store ex_world_nogame)\<lparr>game := Some \<lparr>status = None, currentPlayerIndex = None,
             players = Some [], usedCards = None, attrs_game = None\<rparr>\<rparr>,
          trace := trace ex_world_nogame @ [Emit (ToggleReady ''g1''),
             SetGameData \<lparr>status = None, currentPlayerIndex = None,
               players = Some [], usedCards = None, attrs_game = None\<rparr>]\<rparr>)"
    by simp
  moreover from toggleReady_total [of "''g1''" ex_world_spectator] unseated ps
  have "storePlayers (store (snd (toggleReady ''g1'' ex_world_spectator))) = Some [ex_p1, ex_p2]"
    by simp
  ultimately show ?thesis using nogame unseated by (simp add: ex_world_nogame_def)
qed

subsection \<open>Playing cards\<close>

text \<open>
  The loop of \<open>putCard\<close> collects, for the ids in the order given, the first card of
  the hand with that id; ids without a card in the hand contribute nothing.
\<close>

lemma collectCards_acc: "collectCards hand ids acc = acc @ collectCards hand ids []"
proof (induction ids arbitrary: acc)
  case Nil
  show ?case by simp
next
  case (Cons i ids)
  show ?case
  proof (cases "List.find (\<lambda>c. id_card c = i) hand")
    case None
    then show ?thesis using Cons.IH [of acc] by simp
  next
    case (Some c)
    then show ?thesis using Cons.IH [of "acc @ [c]"] Cons.IH [of "[c]"] by simp
  qed
qed

lemma find_id_None: "(List.find (\<lambda>c. id_card c = i) hand = None) = (i \<notin> id_card ` set hand)"
  by (auto simp: find_None_iff)

lemma find_id_Some: "List.find (\<lambda>c. id_card c = i) hand = Some c \<Longrightarrow> c \<in> set hand \<and> id_card c = i"
  by (auto simp: find_Some_iff)

lemma collectCards_ids:
  "map id_card (collectCards hand ids []) = filter (\<lambda>i. i \<in> id_card ` set hand) ids"
proof (induction ids)
  case Nil
  show ?case by simp
next
  case (Cons i ids)
  show ?case
  proof (cases "List.find (\<lambda>c. id_card c = i) hand")
    case None
    then have "i \<notin> id_card ` set hand" by (simp add: find_id_None)
    with None show ?thesis using Cons.IH by simp
  next
    case (Some c)
    then have "i \<in> id_card ` set hand" "id_card c = i"
      using find_id_Some [OF Some] by auto
    then show ?thesis
      using Some Cons.IH collectCards_acc [of hand ids "[c]"] by simp
  qed
qed

lemma collectCards_in_hand: "set (collectCards hand ids []) \<subseteq> set hand"
proof (induction ids)
  case Nil
  show ?case by simp
next
  case (Cons i ids)
  show ?case
  proof (cases "List.find (\<lambda>c. id_card c = i) hand")
    case None
    then show ?thesis using Cons.IH by simp
  next
    case (Some c)
    then show ?thesis
      using Cons.IH find_id_Some [OF Some] collectCards_acc [of hand ids "[c]"] by simp
  qed
qed

lemma collectCards_set:
  assumes "distinct (map id_card hand)"
  shows "set (collectCards hand ids []) = {c \<in> set hand. id_card c \<in> set ids}"
proof (rule set_eqI, rule iffI)
  fix c
  assume c: "c \<in> set (collectCards hand ids [])"
  then have "id_card c \<in> set (map id_card (collectCards hand ids []))" by simp
  then have "id_card c \<in> set ids" unfolding collectCards_ids by simp
  with c collectCards_in_hand show "c \<in> {c \<in> set hand. id_card c \<in> set ids}" by blast
next
  fix c
  assume "c \<in> {c \<in> set hand. id_card c \<in> set ids}"
  then have c: "c \<in> set hand" "id_card c \<in> set ids" by simp_all
  then have "id_card c \<in> set (filter (\<lambda>i. i \<in> id_card ` set hand) ids)" by simp
  then have "id_card c \<in> set (map id_card (collectCards hand ids []))"
    unfolding collectCards_ids .
  then obtain c' where c': "c' \<in> set (collectCards hand ids [])" "id_card c' = id_card c"
    by auto
  with collectCards_in_hand have "c' \<in> set hand" by blast
  with assms c(1) c'(2) have "c' = c" by (simp add: distinct_map inj_on_def)
  with c'(1) show "c \<in> set (collectCards hand ids [])" by simp
qed

lemma collectCards_distinct:
  assumes "distinct ids"
  shows "distinct (collectCards hand ids [])"
proof -
  have "distinct (map id_card (collectCards hand ids []))"
    unfolding collectCards_ids using assms by simp
  then show ?thesis by (simp add: distinct_map)
qed

lemma putCard_unseated:
  assumes "getCurrentPlayer None (store w) = None"
  shows "putCard gameId cardIds selectedColor w =
           (Inr (), w\<lparr>trace := trace w @ [Emit (PutCard gameId cardIds selectedColor)]\<rparr>)"
proof (cases "game (store w)")
  case None
  then show ?thesis by (simp add: putCard_def Let_def emit_def)
next
  case (Some g)
  show ?thesis
  proof (cases "players g")
    case None
    with Some show ?thesis by (simp add: putCard_def Let_def emit_def)
  next
    case (Some ps)
    with \<open>game (store w) = Some g\<close> assms have "List.find (isLocal (store w)) ps = None"
      by (simp add: getCurrentPlayer_def storePlayers_def)
    with Some \<open>game (store w) = Some g\<close> show ?thesis
      by (simp add: putCard_def Let_def emit_def)
  qed
qed

lemma putCard_seated:
  assumes "game (store w) = Some g" "players g = Some ps"
    "List.find (isLocal (store w)) ps = Some p" "usedCards g = Some used"
  shows "putCard gameId cardIds selectedColor w =
           (Inr (),
            setGameData
              (g\<lparr>players := Some (map (\<lambda>q. if isLocal (store w) q
                    then q\<lparr>handCards := filter (\<lambda>c. id_card c \<notin> set cardIds) (handCards q)\<rparr>
                    else q) ps),
                 usedCards := Some (collectCards (handCards p) cardIds [] @ used)\<rparr>)
              (emit (PutCard gameId cardIds selectedColor) w))"
  using assms by (simp add: putCard_def Let_def emit_def)

lemma putCard_seated_store:
  assumes "getCurrentPlayer None (store w) = Some p" "storeUsedCards (store w) = Some used"
  shows "fst (putCard gameId cardIds selectedColor w) = Inr ()"
    and "storeUsedCards (store (snd (putCard gameId cardIds selectedColor w))) =
           Some (collectCards (handCards p) cardIds [] @ used)"
    and "getCurrentPlayer None (store (snd (putCard gameId cardIds selectedColor w))) =
           Some (p\<lparr>handCards := filter (\<lambda>c. id_card c \<notin> set cardIds) (handCards p)\<rparr>)"
    and "\<exists>g'. game (store (snd (putCard gameId cardIds selectedColor w))) = Some g' \<and>
           trace (snd (putCard gameId cardIds selectedColor w)) =
             trace w @ [Emit (PutCard gameId cardIds selectedColor), SetGameData g']"
proof -
  from assms(1) obtain g ps where g: "game (store w) = Some g" "players g = Some ps"
    "List.find (isLocal (store w)) ps = Some p"
    by (rule seated_game)
  from assms(2) g(1) have used: "usedCards g = Some used"
    by (simp add: storeUsedCards_def)
  note eq = putCard_seated [OF g used, of gameId cardIds selectedColor]
  show "fst (putCard gameId cardIds selectedColor w) = Inr ()"
    by (simp add: eq)
  show "storeUsedCards (store (snd (putCard gameId cardIds selectedColor w))) =
      Some (collectCards (handCards p) cardIds [] @ used)"
    by (simp add: eq setGameData_def emit_def storeUsedCards_def)
  have loc: "isLocal (store (snd (putCard gameId cardIds selectedColor w))) = isLocal (store w)"
    by (rule isLocal_cong) (simp add: eq setGameData_def emit_def)
  show "getCurrentPlayer None (store (snd (putCard gameId cardIds selectedColor w))) =
      Some (p\<lparr>handCards := filter (\<lambda>c. id_card c \<notin> set cardIds) (handCards p)\<rparr>)"
    unfolding getCurrentPlayer_def loc
    using g(3) find_map_update [of "isLocal (store w)"
        "\<lambda>q. q\<lparr>handCards := filter (\<lambda>c. id_card c \<notin> set cardIds) (handCards q)\<rparr>" ps]
    by (simp add: eq setGameData_def emit_def storePlayers_def)
  show "\<exists>g'. game (store (snd (putCard gameId cardIds selectedColor w))) = Some g' \<and>
      trace (snd (putCard gameId cardIds selectedColor w)) =
        trace w @ [Emit (PutCard gameId cardIds selectedColor), SetGameData g']"
    by (simp add: eq setGameData_def emit_def)
qed

text \<open>
  A game object without \<^verbatim>\<open>usedCards\<close> is not a \<^verbatim>\<open>Game\<close> of the protocol; the hook
  itself only builds one with no players (\<open>toggleReady\<close> on an empty store). Were the
  local player seated in such a game, the spread would throw after the request is sent.
\<close>

lemma putCard_without_usedCards:
  assumes "game (store w) = Some g" "players g = Some ps"
    "List.find (isLocal (store w)) ps = Some p" "usedCards g = None"
  shows "putCard gameId cardIds selectedColor w =
           (Inl TypeError, w\<lparr>trace := trace w @ [Emit (PutCard gameId cardIds selectedColor)]\<rparr>)"
  using assms by (simp add: putCard_def Let_def emit_def)

lemma ex_world_seated: "getCurrentPlayer None (store ex_world) = Some ex_p2"
  by (simp add: getCurrentPlayer_def storePlayers_def isLocal_def ex_defs)

lemma ex_world_used: "storeUsedCards (store ex_world) = Some [ex_c0]"
  by (simp add: storeUsedCards_def ex_world_def ex_game_def)

lemma ex_spectator_unseated: "getCurrentPlayer None (store ex_world_spectator) = None"
  by (simp add: getCurrentPlayer_def storePlayers_def isLocal_def ex_defs)

text \<open>
  With unique ids in the hand, a card of the hand is collected as many times as its id
  occurs among the given ids; a collected card is the first of the hand with its id.
\<close>

lemma collectCards_step:
  "collectCards hand (i # ids) [] =
     (case List.find (\<lambda>c. id_card c = i) hand of None \<Rightarrow> [] | Some c \<Rightarrow> [c])
       @ collectCards hand ids []"
proof (cases "List.find (\<lambda>c. id_card c = i) hand")
  case None
  then show ?thesis by simp
next
  case (Some c)
  then show ?thesis using collectCards_acc [of hand ids "[c]"] by simp
qed

lemma collectCards_first:
  "c \<in> set (collectCards hand ids []) \<Longrightarrow> List.find (\<lambda>h. id_card h = id_card c) hand = Some c"
proof (induction ids)
  case Nil
  then show ?case by simp
next
  case (Cons i ids)
  show ?case
  proof (cases "List.find (\<lambda>c. id_card c = i) hand")
    case None
    with Cons show ?thesis by (simp add: collectCards_step del: collectCards.simps(2))
  next
    case (Some c')
    then have "id_card c' = i" using find_id_Some [OF Some] by simp
    with Some Cons show ?thesis by (auto simp: collectCards_step simp del: collectCards.simps(2))
  qed
qed

lemma find_unique_id:
  assumes "distinct (map id_card hand)" "c \<in> set hand"
  shows "List.find (\<lambda>h. id_card h = id_card c) hand = Some c"
proof -
  from assms(2) have "List.find (\<lambda>h. id_card h = id_card c) hand \<noteq> None"
    by (auto simp: find_None_iff)
  then obtain c' where c': "List.find (\<lambda>h. id_card h = id_card c) hand = Some c'" by blast
  then have "c' \<in> set hand" "id_card c' = id_card c" using find_id_Some [OF c'] by simp_all
  with assms have "c' = c" by (simp add: distinct_map inj_on_def)
  with c' show ?thesis by simp
qed

lemma collectCards_count:
  assumes "distinct (map id_card hand)" "c \<in> set hand"
  shows "count_list (collectCards hand ids []) c = count_list ids (id_card c)"
proof (induction ids)
  case Nil
  show ?case by simp
next
  case (Cons i ids)
  show ?case
  proof (cases "i = id_card c")
    case True
    with find_unique_id [OF assms] have "List.find (\<lambda>h. id_card h = i) hand = Some c" by simp
    with True Cons show ?thesis by (simp add: collectCards_step del: collectCards.simps(2))
  next
    case False
    show ?thesis
    proof (cases "List.find (\<lambda>h. id_card h = i) hand")
      case None
      with False Cons show ?thesis by (simp add: collectCards_step del: collectCards.simps(2))
    next
      case (Some c')
      then have "id_card c' = i" using find_id_Some [OF Some] by simp
      with False have "c' \<noteq> c" by auto
      with Some False Cons show ?thesis by (simp add: collectCards_step del: collectCards.simps(2))
    qed
  qed
qed

lemma collectCards_mset:
  assumes "distinct (map id_card hand)" "distinct ids"
  shows "mset (collectCards hand ids []) = mset (filter (\<lambda>c. id_card c \<in> set ids) hand)"
proof -
  have "distinct (collectCards hand ids [])" by (rule collectCards_distinct [OF assms(2)])
  moreover from assms(1) have "distinct (filter (\<lambda>c. id_card c \<in> set ids) hand)"
    by (simp add: distinct_map)
  moreover have "set (collectCards hand ids []) = set (filter (\<lambda>c. id_card c \<in> set ids) hand)"
    by (simp add: collectCards_set [OF assms(1)])
  ultimately show ?thesis by (simp only: set_eq_iff_mset_eq_distinct)
qed

text \<open>
  Claim C1, as stated, says that exactly the cards removed from the hand are prepended
  to \<^verbatim>\<open>usedCards\<close>. The loop pushes a card for every occurrence of its id in
  \<^verbatim>\<open>cardIds\<close>, while the filter removes it from the hand once: with the id \<open>c1\<close> given
  twice, the one card \<open>c1\<close> leaves the hand and stands twice at the front of
  \<^verbatim>\<open>usedCards\<close>.
\<close>

theorem putCard_duplicate_ids_counterexample:
  "getCurrentPlayer None (store ex_world) = Some ex_p2 \<and>
   handCards ex_p2 = [ex_c1, ex_c2] \<and>
   storeUsedCards (store ex_world) = Some [ex_c0] \<and>
   fst (putCard ''g1'' [''c1'', ''c1''] ''red'' ex_world) = Inr () \<and>
   getCurrentPlayer None (store (snd (putCard ''g1'' [''c1'', ''c1''] ''red'' ex_world))) =
     Some (ex_p2\<lparr>handCards := [ex_c2]\<rparr>) \<and>
   storeUsedCards (store (snd (putCard ''g1'' [''c1'', ''c1''] ''red'' ex_world))) =
     Some [ex_c1, ex_c1, ex_c0]"
proof -
  have hand: "handCards ex_p2 = [ex_c1, ex_c2]" by (simp add: ex_p2_def)
  have "collectCards [ex_c1, ex_c2] [''c1'', ''c1''] [] = [ex_c1, ex_c1]"
    by (simp add: ex_c1_def ex_c2_def)
  moreover have "filter (\<lambda>c. id_card c \<notin> set [''c1'', ''c1'']) [ex_c1, ex_c2] = [ex_c2]"
    by (simp add: ex_c1_def ex_c2_def)
  ultimately show ?thesis
    using putCard_seated_store [OF ex_world_seated ex_world_used, of "''g1''" "[''c1'', ''c1'']" "''red''"]
    by (simp add: hand ex_world_seated ex_world_used)
qed

text \<open>
  Claim C1, amended. For every call of \<^verbatim>\<open>putCard(gameId, cardIds, selectedColor)\<close>
  with the local player seated (in a game that has \<^verbatim>\<open>usedCards\<close>), the call returns
  normally, the request is sent and the store's game is replaced so that exactly the
  cards of the local hand whose ids occur in \<^verbatim>\<open>cardIds\<close> are removed from the hand,
  and for every occurrence in \<^verbatim>\<open>cardIds\<close> of an id that is in the hand, in that order,
  the first card of the hand with that id is prepended to \<^verbatim>\<open>usedCards\<close>. With unique
  ids in the hand, as the data model says, each card of the hand is prepended as often
  as its id occurs in \<^verbatim>\<open>cardIds\<close>; when \<^verbatim>\<open>cardIds\<close> has no duplicates as well, the
  prepended cards are exactly the removed cards, each once. An id that is not in the
  hand is skipped: when no id is in the hand, \<^verbatim>\<open>usedCards\<close> is as before. If the local
  player is not among the game's players, the store is not touched and the request is
  still sent.
\<close>

theorem putCard_spec:
  "(getCurrentPlayer None (store w) = Some p \<and> storeUsedCards (store w) = Some used \<longrightarrow>
      fst (putCard gameId cardIds selectedColor w) = Inr () \<and>
      getCurrentPlayer None (store (snd (putCard gameId cardIds selectedColor w))) =
        Some (p\<lparr>handCards := filter (\<lambda>c. id_card c \<notin> set cardIds) (handCards p)\<rparr>) \<and>
      (\<exists>moved.
         storeUsedCards (store (snd (putCard gameId cardIds selectedColor w))) = Some (moved @ used) \<and>
         map id_card moved = filter (\<lambda>i. i \<in> id_card ` set (handCards p)) cardIds \<and>
         (\<forall>c\<in>set moved. List.find (\<lambda>h. id_card h = id_card c) (handCards p) = Some c) \<and>
         (distinct (map id_card (handCards p)) \<longrightarrow>
            (\<forall>c\<in>set (handCards p). count_list moved c = count_list cardIds (id_card c))) \<and>
         (distinct (map id_card (handCards p)) \<and> distinct cardIds \<longrightarrow>
            mset moved = mset (filter (\<lambda>c. id_card c \<in> set cardIds) (handCards p))) \<and>
         (set cardIds \<inter> id_card ` set (handCards p) = {} \<longrightarrow> moved = [])) \<and>
      (\<exists>g'. game (store (snd (putCard gameId cardIds selectedColor w))) = Some g' \<and>
         trace (snd (putCard gameId cardIds selectedColor w)) =
           trace w @ [Emit (PutCard gameId cardIds selectedColor), SetGameData g'])) \<and>
   (getCurrentPlayer None (store w) = None \<longrightarrow>
      putCard gameId cardIds selectedColor w =
        (Inr (), w\<lparr>trace := trace w @ [Emit (PutCard gameId cardIds selectedColor)]\<rparr>))"
proof (intro conjI impI)
  assume a: "getCurrentPlayer None (store w) = Some p \<and> storeUsedCards (store w) = Some used"
  then have seated: "getCurrentPlayer None (store w) = Some p"
    and used: "storeUsedCards (store w) = Some used"
    by simp_all
  note r = putCard_seated_store [OF seated used, of gameId cardIds selectedColor]
  show "fst (putCard gameId cardIds selectedColor w) = Inr ()" by (rule r(1))
  show "getCurrentPlayer None (store (snd (putCard gameId cardIds selectedColor w))) =
        Some (p\<lparr>handCards := filter (\<lambda>c. id_card c \<notin> set cardIds) (handCards p)\<rparr>)"
    by (rule r(3))
  show "\<exists>g'. game (store (snd (putCard gameId cardIds selectedColor w))) = Some g' \<and>
         trace (snd (putCard gameId cardIds selectedColor w)) =
           trace w @ [Emit (PutCard gameId cardIds selectedColor), SetGameData g']"
    by (rule r(4))
  let ?moved = "collectCards (handCards p) cardIds []"
  have ids: "map id_card ?moved = filter (\<lambda>i. i \<in> id_card ` set (handCards p)) cardIds"
    by (rule collectCards_ids)
  have first: "\<forall>c\<in>set ?moved. List.find (\<lambda>h. id_card h = id_card c) (handCards p) = Some c"
    by (simp add: collectCards_first)
  have cnt: "distinct (map id_card (handCards p)) \<longrightarrow>
      (\<forall>c\<in>set (handCards p). count_list ?moved c = count_list cardIds (id_card c))"
    by (simp add: collectCards_count)
  have once: "distinct (map id_card (handCards p)) \<and> distinct cardIds \<longrightarrow>
      mset ?moved = mset (filter (\<lambda>c. id_card c \<in> set cardIds) (handCards p))"
    using collectCards_mset [of "handCards p" cardIds] by blast
  have none: "set cardIds \<inter> id_card ` set (handCards p) = {} \<longrightarrow> ?moved = []"
  proof
    assume "set cardIds \<inter> id_card ` set (handCards p) = {}"
    then have "filter (\<lambda>i. i \<in> id_card ` set (handCards p)) cardIds = []"
      by (auto simp: filter_empty_conv)
    with ids have "map id_card ?moved = []" by simp
    then show "?moved = []" by simp
  qed
  from r(2) ids first cnt once none
  show "\<exists>moved.
         storeUsedCards (store (snd (putCard gameId cardIds selectedColor w))) = Some (moved @ used) \<and>
         map id_card moved = filter (\<lambda>i. i \<in> id_card ` set (handCards p)) cardIds \<and>
         (\<forall>c\<in>set moved. List.find (\<lambda>h. id_card h = id_card c) (handCards p) = Some c) \<and>
         (distinct (map id_card (handCards p)) \<longrightarrow>
            (\<forall>c\<in>set (handCards p). count_list moved c = count_list cardIds (id_card c))) \<and>
         (distinct (map id_card (handCards p)) \<and> distinct cardIds \<longrightarrow>
            mset moved = mset (filter (\<lambda>c. id_card c \<in> set cardIds) (handCards p))) \<and>
         (set cardIds \<inter> id_card ` set (handCards p) = {} \<longrightarrow> moved = [])"
    by blast
next
  assume "getCurrentPlayer None (store w) = None"
  then show "putCard gameId cardIds selectedColor w =
        (Inr (), w\<lparr>trace := trace w @ [Emit (PutCard gameId cardIds selectedColor)]\<rparr>)"
    by (rule putCard_unseated)
qed

theorem putCard_spec_witness:
  "getCurrentPlayer None (store ex_world) = Some ex_p2 \<and>
   storeUsedCards (store ex_world) = Some [ex_c0] \<and>
   handCards ex_p2 = [ex_c1, ex_c2] \<and>
   storeUsedCards (store (snd (putCard ''g1'' [''c1'', ''zz''] ''red'' ex_world))) = Some [ex_c1, ex_c0] \<and>
   getCurrentPlayer None (store (snd (putCard ''g1'' [''c1'', ''zz''] ''red'' ex_world))) =
     Some (ex_p2\<lparr>handCards := [ex_c2]\<rparr>) \<and>
   putCard ''g1'' [''c1''] ''red'' ex_world_spectator =
     (Inr (), ex_world_spectator\<lparr>trace := [Emit (PutCard ''g1'' [''c1''] ''red'')]\<rparr>)"
proof -
  have hand: "handCards ex_p2 = [ex_c1, ex_c2]" by (simp add: ex_p2_def)
  note spec = putCard_spec [of ex_world ex_p2 "[ex_c0]" "''g1''" "[''c1'', ''zz'']" "''red''"]
  from spec ex_world_seated ex_world_used
  obtain moved where moved:
    "storeUsedCards (store (snd (putCard ''g1'' [''c1'', ''zz''] ''red'' ex_world))) = Some (moved @ [ex_c0])"
    "map id_card moved = filter (\<lambda>i. i \<in> id_card ` set (handCards ex_p2)) [''c1'', ''zz'']"
    "\<forall>c\<in>set moved. List.find (\<lambda>h. id_card h = id_card c) (handCards ex_p2) = Some c"
    by blast
  from moved(2) have "map id_card moved = [''c1'']" by (simp add: ex_defs)
  then obtain c where c: "moved = [c]" "id_card c = ''c1''"
    by (auto simp: map_eq_Cons_conv)
  with moved(3) have "List.find (\<lambda>h. id_card h = ''c1'') (handCards ex_p2) = Some c" by simp
  then have "c = ex_c1" by (simp add: ex_p2_def ex_c1_def)
  with c moved(1)
  have a: "storeUsedCards (store (snd (putCard ''g1'' [''c1'', ''zz''] ''red'' ex_world))) = Some [ex_c1, ex_c0]"
    by simp
  from spec ex_world_seated ex_world_used
  have "getCurrentPlayer None (store (snd (putCard ''g1'' [''c1'', ''zz''] ''red'' ex_world))) =
      Some (ex_p2\<lparr>handCards := filter (\<lambda>c. id_card c \<notin> set [''c1'', ''zz'']) (handCards ex_p2)\<rparr>)"
    by blast
  then have b: "getCurrentPlayer None (store (snd (putCard ''g1'' [''c1'', ''zz''] ''red'' ex_world))) =
      Some (ex_p2\<lparr>handCards := [ex_c2]\<rparr>)"
    by (simp add: ex_defs)
  from putCard_spec [of ex_world_spectator ex_p2 "[]" "''g1''" "[''c1'']" "''red''"] ex_spectator_unseated
  have c: "putCard ''g1'' [''c1''] ''red'' ex_world_spectator =
      (Inr (), ex_world_spectator\<lparr>trace := trace ex_world_spectator @ [Emit (PutCard ''g1'' [''c1''] ''red'')]\<rparr>)"
    by blast
  have "trace ex_world_spectator = []" by (simp add: ex_world_spectator_def)
  with c have "putCard ''g1'' [''c1''] ''red'' ex_world_spectator =
      (Inr (), ex_world_spectator\<lparr>trace := [Emit (PutCard ''g1'' [''c1''] ''red'')]\<rparr>)"
    by simp
  with a b hand ex_world_seated ex_world_used show ?thesis by blast
qed

text \<open>
  Claim C9. When \<^verbatim>\<open>putCard\<close> moves several cards, the cards prepended to
  \<^verbatim>\<open>usedCards\<close> are cards of the hand in the order their ids occur in \<^verbatim>\<open>cardIds\<close>
  (not in the order of the hand), followed by the whole previous \<^verbatim>\<open>usedCards\<close>.
\<close>

theorem putCard_order:
  assumes "getCurrentPlayer None (store w) = Some p" "storeUsedCards (store w) = Some used"
  shows "\<exists>moved.
           storeUsedCards (store (snd (putCard gameId cardIds selectedColor w))) = Some (moved @ used) \<and>
           map id_card moved = filter (\<lambda>i. i \<in> id_card ` set (handCards p)) cardIds \<and>
           set moved \<subseteq> set (handCards p)"
  using putCard_seated_store(2) [OF assms, of gameId cardIds selectedColor]
    collectCards_ids [of "handCards p" cardIds] collectCards_in_hand [of "handCards p" cardIds]
  by blast

theorem putCard_order_witness:
  "handCards ex_p2 = [ex_c1, ex_c2] \<and>
   storeUsedCards (store (snd (putCard ''g1'' [''c2'', ''zz'', ''c1''] ''red'' ex_world))) =
     Some [ex_c2, ex_c1, ex_c0]"
proof -
  from putCard_order [OF ex_world_seated ex_world_used, of "''g1''" "[''c2'', ''zz'', ''c1'']" "''red''"]
  obtain moved where moved:
    "storeUsedCards (store (snd (putCard ''g1'' [''c2'', ''zz'', ''c1''] ''red'' ex_world))) = Some (moved @ [ex_c0])"
    "map id_card moved = filter (\<lambda>i. i \<in> id_card ` set (handCards ex_p2)) [''c2'', ''zz'', ''c1'']"
    "set moved \<subseteq> set (handCards ex_p2)"
    by blast
  from moved(2) have ids: "map id_card moved = [''c2'', ''c1'']" by (simp add: ex_defs)
  then obtain a b where ab: "moved = [a, b]" "id_card a = ''c2''" "id_card b = ''c1''"
    by (auto simp: map_eq_Cons_conv)
  with moved(3) have "a \<in> {ex_c1, ex_c2}" "b \<in> {ex_c1, ex_c2}" by (auto simp: ex_p2_def)
  with ab have "a = ex_c2" "b = ex_c1" by (auto simp: ex_c1_def ex_c2_def)
  with ab moved(1) show ?thesis by (simp add: ex_p2_def)
qed

subsection \<open>The online status\<close>

text \<open>
  \<open>toggleOnlineStatus\<close> in one equation for each way the awaited request can settle.
\<close>

lemma toggleOnlineStatus_rejected:
  "toggleOnlineStatus gameId (Inl e) w =
     (Inl e, w\<lparr>trace := trace w @ [Emit (ChangePlayerStatus gameId ''online'')]\<rparr>)"
  by (simp add: toggleOnlineStatus_def toggleOnlineStatus_continue_def
      toggleOnlineStatus_request_def emit_def)

lemma toggleOnlineStatus_resolved:
  "toggleOnlineStatus gameId (Inr u) w =
     (Inr (),
      w\<lparr>store := (store w)\<lparr>game := Some
           ((case game (store w) of None \<Rightarrow> emptyObject | Some g \<Rightarrow> g)
              \<lparr>players := Some (map (\<lambda>p. if isLocal (store w) p then p\<lparr>status_player := ''online''\<rparr> else p)
                 (storePlayersOrEmpty (store w)))\<rparr>)\<rparr>,
        trace := trace w @ [Emit (ChangePlayerStatus gameId ''online''), SetGameData
           ((case game (store w) of None \<Rightarrow> emptyObject | Some g \<Rightarrow> g)
              \<lparr>players := Some (map (\<lambda>p. if isLocal (store w) p then p\<lparr>status_player := ''online''\<rparr> else p)
                 (storePlayersOrEmpty (store w)))\<rparr>)]\<rparr>)"
  by (simp add: toggleOnlineStatus_def toggleOnlineStatus_continue_def
      toggleOnlineStatus_request_def Let_def emit_def setGameData_def storePlayers_def
      storePlayersOrEmpty_def emptyObject_def split: option.splits)

text \<open>
  Claim C7. \<^verbatim>\<open>toggleOnlineStatus(gameId)\<close> writes the store only after the awaited
  \<^verbatim>\<open>ChangePlayerStatus\<close> request has resolved: up to the \<^verbatim>\<open>await\<close> only the request is
  sent; if the request is rejected, the call ends with that error and the store is
  unchanged; if it resolves, the store's game is replaced and the seated local player
  has status \<^verbatim>\<open>"online"\<close>.
\<close>

theorem toggleOnlineStatus_spec:
  "store (toggleOnlineStatus_request gameId w) = store w \<and>
   trace (toggleOnlineStatus_request gameId w) =
     trace w @ [Emit (ChangePlayerStatus gameId ''online'')] \<and>
   toggleOnlineStatus_continue (Inl e) w = (Inl e, w) \<and>
   toggleOnlineStatus gameId (Inl e) w =
     (Inl e, w\<lparr>trace := trace w @ [Emit (ChangePlayerStatus gameId ''online'')]\<rparr>) \<and>
   store (snd (toggleOnlineStatus gameId (Inl e) w)) = store w \<and>
   fst (toggleOnlineStatus gameId (Inr u) w) = Inr () \<and>
   (\<exists>g'. game (store (snd (toggleOnlineStatus gameId (Inr u) w))) = Some g' \<and>
      trace (snd (toggleOnlineStatus gameId (Inr u) w)) =
        trace w @ [Emit (ChangePlayerStatus gameId ''online''), SetGameData g']) \<and>
   (getCurrentPlayer None (store w) = Some p \<longrightarrow>
      getCurrentPlayer None (store (snd (toggleOnlineStatus gameId (Inr u) w))) =
        Some (p\<lparr>status_player := ''online''\<rparr>))"
proof (intro conjI impI)
  show "store (toggleOnlineStatus_request gameId w) = store w"
    and "trace (toggleOnlineStatus_request gameId w) =
      trace w @ [Emit (ChangePlayerStatus gameId ''online'')]"
    by (simp_all add: toggleOnlineStatus_request_def emit_def)
  show "toggleOnlineStatus_continue (Inl e) w = (Inl e, w)"
    by (simp add: toggleOnlineStatus_continue_def)
  show "toggleOnlineStatus gameId (Inl e) w =
      (Inl e, w\<lparr>trace := trace w @ [Emit (ChangePlayerStatus gameId ''online'')]\<rparr>)"
    by (rule toggleOnlineStatus_rejected)
  show "store (snd (toggleOnlineStatus gameId (Inl e) w)) = store w"
    by (simp add: toggleOnlineStatus_rejected)
  show "fst (toggleOnlineStatus gameId (Inr u) w) = Inr ()"
    by (simp add: toggleOnlineStatus_resolved)
  show "\<exists>g'. game (store (snd (toggleOnlineStatus gameId (Inr u) w))) = Some g' \<and>
      trace (snd (toggleOnlineStatus gameId (Inr u) w)) =
        trace w @ [Emit (ChangePlayerStatus gameId ''online''), SetGameData g']"
    by (simp add: toggleOnlineStatus_resolved)
next
  assume "getCurrentPlayer None (store w) = Some p"
  then obtain g ps where g: "game (store w) = Some g" "players g = Some ps"
    "List.find (isLocal (store w)) ps = Some p"
    by (rule seated_game)
  let ?f = "\<lambda>p. if isLocal (store w) p then p\<lparr>status_player := ''online''\<rparr> else p"
  have st: "store (snd (toggleOnlineStatus gameId (Inr u) w)) =
      (store w)\<lparr>game := Some (g\<lparr>players := Some (map ?f ps)\<rparr>)\<rparr>"
    using g by (simp add: toggleOnlineStatus_resolved storePlayersOrEmpty_def storePlayers_def)
  have loc: "isLocal ((store w)\<lparr>game := Some (g\<lparr>players := Some (map ?f ps)\<rparr>)\<rparr>) = isLocal (store w)"
    by (rule isLocal_cong) simp
  show "getCurrentPlayer None (store (snd (toggleOnlineStatus gameId (Inr u) w))) =
      Some (p\<lparr>status_player := ''online''\<rparr>)"
    unfolding st
    using g(3) find_map_update [of "isLocal (store w)" "\<lambda>p. p\<lparr>status_player := ''online''\<rparr>" ps]
    by (simp add: getCurrentPlayer_def storePlayers_def loc)
qed

theorem toggleOnlineStatus_spec_witness:
  "status_player ex_p2 = ''afk'' \<and>
   toggleOnlineStatus ''g1'' (Inl (Rejected ''timeout'')) ex_world =
     (Inl (Rejected ''timeout''),
      ex_world\<lparr>trace := [Emit (ChangePlayerStatus ''g1'' ''online'')]\<rparr>) \<and>
   getCurrentPlayer None (store (snd (toggleOnlineStatus ''g1'' (Inr ()) ex_world))) =
     Some (ex_p2\<lparr>status_player := ''online''\<rparr>)"
proof -
  have "trace ex_world = []" by (simp add: ex_world_def)
  moreover have "status_player ex_p2 = ''afk''" by (simp add: ex_p2_def)
  ultimately show ?thesis
    using toggleOnlineStatus_spec [of "''g1''" ex_world "Rejected ''timeout''" "()" ex_p2]
      ex_world_seated
    by simp
qed

subsection \<open>What the optimistic updates leave alone\<close>

text \<open>
  On a store with a game and its players, each of the three actions either leaves the
  store as it is or replaces the game by a copy in which a function is mapped over the
  players that changes the local player only, and there only the ready flag, the status
  or the hand, and in which \<^verbatim>\<open>usedCards\<close> may be replaced. On a store without a game,
  \<open>toggleReady\<close> and \<open>toggleOnlineStatus\<close> write the empty object with an empty players
  array.
\<close>

lemma frame_general:
  assumes g: "game (store w) = Some g" "players g = Some ps"
    and s': "s' = (store w)\<lparr>game := Some (g\<lparr>players :=
        Some (map (\<lambda>p. if isLocal (store w) p then f p else p) ps), usedCards := u\<rparr>)\<rparr>"
    and f: "\<And>p. (f p)\<lparr>ready := ready p, status_player := status_player p,
        handCards := handCards p\<rparr> = p"
  shows "\<exists>g' ps'. game s' = Some g' \<and> players g' = Some ps' \<and>
           s'\<lparr>game := Some g\<rparr> = store w \<and>
           g'\<lparr>players := Some ps, usedCards := usedCards g\<rparr> = g \<and>
           status g' = status g \<and>
           currentPlayerIndex g' = currentPlayerIndex g \<and>
           length ps' = length ps \<and>
           (\<forall>j<length ps.
              (\<not> isLocal (store w) (ps ! j) \<longrightarrow> ps' ! j = ps ! j) \<and>
              (ps' ! j)\<lparr>ready := ready (ps ! j), status_player := status_player (ps ! j),
                 handCards := handCards (ps ! j)\<rparr> = ps ! j)"
proof -
  let ?ps' = "map (\<lambda>p. if isLocal (store w) p then f p else p) ps"
  let ?g' = "g\<lparr>players := Some ?ps', usedCards := u\<rparr>"
  have "game s' = Some ?g'" "players ?g' = Some ?ps'"
    by (simp_all add: s')
  moreover have "s'\<lparr>game := Some g\<rparr> = store w"
    using g(1) by (cases "store w") (simp add: s')
  moreover have "?g'\<lparr>players := Some ps, usedCards := usedCards g\<rparr> = g"
    using g(2) by (cases g) simp
  moreover have "status ?g' = status g" "currentPlayerIndex ?g' = currentPlayerIndex g"
    "length ?ps' = length ps"
    by simp_all
  moreover have "\<forall>j<length ps.
      (\<not> isLocal (store w) (ps ! j) \<longrightarrow> ?ps' ! j = ps ! j) \<and>
      (?ps' ! j)\<lparr>ready := ready (ps ! j), status_player := status_player (ps ! j),
         handCards := handCards (ps ! j)\<rparr> = ps ! j"
    by (simp add: f)
  ultimately show ?thesis by blast
qed

lemma toggleReady_store:
  assumes "game (store w) = Some g" "players g = Some ps"
  shows "store (snd (toggleReady gameId w)) =
     (store w)\<lparr>game := Some (g\<lparr>players :=
        Some (map (\<lambda>p. if isLocal (store w) p then p\<lparr>ready := \<not> ready p\<rparr> else p) ps),
        usedCards := usedCards g\<rparr>)\<rparr>"
  using assms by (simp add: toggleReady_result storePlayers_def)

lemma toggleOnlineStatus_store:
  assumes "game (store w) = Some g" "players g = Some ps"
  shows "store (snd (toggleOnlineStatus gameId (Inr u) w)) =
     (store w)\<lparr>game := Some (g\<lparr>players :=
        Some (map (\<lambda>p. if isLocal (store w) p then p\<lparr>status_player := ''online''\<rparr> else p) ps),
        usedCards := usedCards g\<rparr>)\<rparr>"
  using assms by (simp add: toggleOnlineStatus_resolved storePlayersOrEmpty_def storePlayers_def)

lemma unchanged_store:
  assumes "game (store w) = Some g" "players g = Some ps"
  shows "store w = (store w)\<lparr>game := Some (g\<lparr>players :=
        Some (map (\<lambda>p. if isLocal (store w) p then p else p) ps), usedCards := usedCards g\<rparr>)\<rparr>"
proof -
  have "g\<lparr>players := Some ps, usedCards := usedCards g\<rparr> = g"
    using assms(2) by (cases g) simp
  then show ?thesis using assms(1) by (cases "store w") simp
qed

lemma putCard_store_cases:
  "store (snd (putCard gameId cardIds selectedColor w)) = store w \<or>
   (\<exists>g ps u. game (store w) = Some g \<and> players g = Some ps \<and>
      store (snd (putCard gameId cardIds selectedColor w)) =
        (store w)\<lparr>game := Some (g\<lparr>players := Some (map (\<lambda>q. if isLocal (store w) q
                    then q\<lparr>handCards := filter (\<lambda>c. id_card c \<notin> set cardIds) (handCards q)\<rparr>
                    else q) ps), usedCards := Some u\<rparr>)\<rparr>)"
proof (cases "getCurrentPlayer None (store w)")
  case None
  then show ?thesis by (simp add: putCard_unseated)
next
  case (Some p)
  then obtain g ps where g: "game (store w) = Some g" "players g = Some ps"
    "List.find (isLocal (store w)) ps = Some p"
    by (rule seated_game)
  show ?thesis
  proof (cases "usedCards g")
    case None
    then show ?thesis by (simp add: putCard_without_usedCards [OF g])
  next
    case (Some used)
    have "store (snd (putCard gameId cardIds selectedColor w)) =
        (store w)\<lparr>game := Some (g\<lparr>players := Some (map (\<lambda>q. if isLocal (store w) q
                    then q\<lparr>handCards := filter (\<lambda>c. id_card c \<notin> set cardIds) (handCards q)\<rparr>
                    else q) ps), usedCards := Some (collectCards (handCards p) cardIds [] @ used)\<rparr>)\<rparr>"
      by (simp add: putCard_seated [OF g Some] setGameData_def emit_def)
    with g show ?thesis by blast
  qed
qed

lemma empty_store_writes:
  assumes "game (store w) = None"
  shows "store (snd (toggleReady gameId w)) =
           (store w)\<lparr>game := Some (emptyObject\<lparr>players := Some []\<rparr>)\<rparr>"
    and "store (snd (toggleOnlineStatus gameId (Inr u) w)) =
           (store w)\<lparr>game := Some (emptyObject\<lparr>players := Some []\<rparr>)\<rparr>"
    and "store (snd (toggleOnlineStatus gameId (Inl e) w)) = store w"
    and "store (snd (putCard gameId cardIds selectedColor w)) = store w"
  using assms
  by (simp_all add: toggleReady_result toggleOnlineStatus_resolved toggleOnlineStatus_rejected
      putCard_def Let_def emit_def storePlayers_def storePlayersOrEmpty_def)

text \<open>
  Claim C6, as stated, speaks of every store state and says that the optimistic updates
  affect only the local player's ready flag, status and hand, and \<^verbatim>\<open>usedCards\<close>. On a
  store without a game, \<^verbatim>\<open>toggleReady\<close> (and \<^verbatim>\<open>toggleOnlineStatus\<close>, once its request
  has resolved) gives the store a game, with an empty players array and no other field,
  and \<^verbatim>\<open>otherPlayers\<close> changes from the empty array to the seven padded positions.
\<close>

theorem optimistic_empty_store_counterexample:
  "game (store ex_world_nogame) = None \<and>
   getOtherPlayers (store ex_world_nogame) = [] \<and>
   game (store (snd (toggleReady ''g1'' ex_world_nogame))) =
     Some \<lparr>status = None, currentPlayerIndex = None, players = Some [],
           usedCards = None, attrs_game = None\<rparr> \<and>
   getOtherPlayers (store (snd (toggleReady ''g1'' ex_world_nogame))) =
     [Undefined, EmptyObj, Undefined, EmptyObj, Undefined, EmptyObj, Undefined] \<and>
   game (store (snd (toggleOnlineStatus ''g1'' (Inr ()) ex_world_nogame))) =
     Some \<lparr>status = None, currentPlayerIndex = None, players = Some [],
           usedCards = None, attrs_game = None\<rparr>"
proof -
  have nogame: "game (store ex_world_nogame) = None" by (simp add: ex_world_nogame_def)
  have before: "getOtherPlayers (store ex_world_nogame) = []"
    by (simp add: getOtherPlayers_def rotatedPlayers_def storePlayers_def ex_world_nogame_def)
  have after: "getOtherPlayers ((store ex_world_nogame)\<lparr>game := Some (emptyObject\<lparr>players := Some []\<rparr>)\<rparr>) =
      [Undefined, EmptyObj, Undefined, EmptyObj, Undefined, EmptyObj, Undefined]"
    by (simp add: getOtherPlayers_def rotatedPlayers_def storePlayers_def slice_def Let_def
        element_def index_def)
  show ?thesis
    using nogame before after
    by (simp add: empty_store_writes [OF nogame] emptyObject_def)
qed

text \<open>
  Claim C6, amended. For every store state that holds a game with its players, the
  store after \<^verbatim>\<open>toggleReady\<close>, after \<^verbatim>\<open>putCard\<close> and after \<^verbatim>\<open>toggleOnlineStatus\<close>
  (however its request settles) still holds a game with players; the store differs from
  the store before in nothing but its game, and that game in nothing but \<^verbatim>\<open>players\<close>
  and \<^verbatim>\<open>usedCards\<close>, so \<^verbatim>\<open>status\<close> and \<^verbatim>\<open>currentPlayerIndex\<close> are as before; there are
  as many players as before, every player who is not the local player is unchanged,
  hand included, and the local player differs at most in the ready flag, the status and
  the hand. \<^verbatim>\<open>toggleReady\<close> and \<^verbatim>\<open>toggleOnlineStatus\<close> leave \<^verbatim>\<open>usedCards\<close> as it was.
  When the store holds no game, \<^verbatim>\<open>putCard\<close> and a rejected \<^verbatim>\<open>toggleOnlineStatus\<close> leave
  the store unchanged, and \<^verbatim>\<open>toggleReady\<close> and a resolved \<^verbatim>\<open>toggleOnlineStatus\<close> set the
  store's game to an object whose players are the empty array and that has no other
  field.
\<close>

theorem optimistic_frame:
  "(game (store w) = Some g \<and> players g = Some ps \<and>
    s' \<in> {store (snd (toggleReady gameId w)),
           store (snd (putCard gameId cardIds selectedColor w)),
           store (snd (toggleOnlineStatus gameId response w))} \<longrightarrow>
      (\<exists>g' ps'. game s' = Some g' \<and> players g' = Some ps' \<and>
         s'\<lparr>game := Some g\<rparr> = store w \<and>
         g'\<lparr>players := Some ps, usedCards := usedCards g\<rparr> = g \<and>
         status g' = status g \<and>
         currentPlayerIndex g' = currentPlayerIndex g \<and>
         length ps' = length ps \<and>
         (\<forall>j<length ps.
            (\<not> isLocal (store w) (ps ! j) \<longrightarrow> ps' ! j = ps ! j) \<and>
            (ps' ! j)\<lparr>ready := ready (ps ! j), status_player := status_player (ps ! j),
               handCards := handCards (ps ! j)\<rparr> = ps ! j))) \<and>
   (game (store w) = Some g \<and> players g = Some ps \<longrightarrow>
      storeUsedCards (store (snd (toggleReady gameId w))) = usedCards g \<and>
      storeUsedCards (store (snd (toggleOnlineStatus gameId response w))) = usedCards g) \<and>
   (game (store w) = None \<longrightarrow>
      store (snd (putCard gameId cardIds selectedColor w)) = store w \<and>
      store (snd (toggleOnlineStatus gameId (Inl e) w)) = store w \<and>
      store (snd (toggleReady gameId w)) =
        (store w)\<lparr>game := Some (emptyObject\<lparr>players := Some []\<rparr>)\<rparr> \<and>
      store (snd (toggleOnlineStatus gameId (Inr u) w)) =
        (store w)\<lparr>game := Some (emptyObject\<lparr>players := Some []\<rparr>)\<rparr>)"
proof (intro conjI impI)
  assume a: "game (store w) = Some g \<and> players g = Some ps \<and>
    s' \<in> {store (snd (toggleReady gameId w)),
           store (snd (putCard gameId cardIds selectedColor w)),
           store (snd (toggleOnlineStatus gameId response w))}"
  then have g: "game (store w) = Some g" "players g = Some ps" by simp_all
  let ?goal = "\<exists>g' ps'. game s' = Some g' \<and> players g' = Some ps' \<and>
         s'\<lparr>game := Some g\<rparr> = store w \<and>
         g'\<lparr>players := Some ps, usedCards := usedCards g\<rparr> = g \<and>
         status g' = status g \<and>
         currentPlayerIndex g' = currentPlayerIndex g \<and>
         length ps' = length ps \<and>
         (\<forall>j<length ps.
            (\<not> isLocal (store w) (ps ! j) \<longrightarrow> ps' ! j = ps ! j) \<and>
            (ps' ! j)\<lparr>ready := ready (ps ! j), status_player := status_player (ps ! j),
               handCards := handCards (ps ! j)\<rparr> = ps ! j)"
  have same: ?goal if "s' = store w"
  proof -
    from that unchanged_store [OF g]
    have "s' = (store w)\<lparr>game := Some (g\<lparr>players :=
        Some (map (\<lambda>p. if isLocal (store w) p then p else p) ps), usedCards := usedCards g\<rparr>)\<rparr>"
      by simp
    from frame_general [OF g this] show ?thesis by simp
  qed
  from a consider
      (ready) "s' = store (snd (toggleReady gameId w))"
    | (put) "s' = store (snd (putCard gameId cardIds selectedColor w))"
    | (online) "s' = store (snd (toggleOnlineStatus gameId response w))"
    by blast
  then show ?goal
  proof cases
    case ready
    with toggleReady_store [OF g, of gameId]
    have "s' = (store w)\<lparr>game := Some (g\<lparr>players :=
        Some (map (\<lambda>p. if isLocal (store w) p then p\<lparr>ready := \<not> ready p\<rparr> else p) ps),
        usedCards := usedCards g\<rparr>)\<rparr>"
      by simp
    from frame_general [OF g this] show ?thesis by simp
  next
    case online
    show ?thesis
    proof (cases response)
      case (Inl e')
      with online have "s' = store w" by (simp add: toggleOnlineStatus_rejected)
      then show ?thesis by (rule same)
    next
      case (Inr u')
      with online toggleOnlineStatus_store [OF g, of gameId u']
      have "s' = (store w)\<lparr>game := Some (g\<lparr>players :=
          Some (map (\<lambda>p. if isLocal (store w) p then p\<lparr>status_player := ''online''\<rparr> else p) ps),
          usedCards := usedCards g\<rparr>)\<rparr>"
        by simp
      from frame_general [OF g this] show ?thesis by simp
    qed
  next
    case put
    from putCard_store_cases [of gameId cardIds selectedColor w]
    show ?thesis
    proof (elim disjE exE conjE)
      assume "store (snd (putCard gameId cardIds selectedColor w)) = store w"
      with put have "s' = store w" by simp
      then show ?thesis by (rule same)
    next
      fix g0 ps0 u0
      assume "game (store w) = Some g0" "players g0 = Some ps0"
        and st: "store (snd (putCard gameId cardIds selectedColor w)) =
          (store w)\<lparr>game := Some (g0\<lparr>players := Some (map (\<lambda>q. if isLocal (store w) q
                    then q\<lparr>handCards := filter (\<lambda>c. id_card c \<notin> set cardIds) (handCards q)\<rparr>
                    else q) ps0), usedCards := Some u0\<rparr>)\<rparr>"
      with g have "g0 = g" "ps0 = ps" by simp_all
      with put st have "s' = (store w)\<lparr>game := Some (g\<lparr>players := Some (map (\<lambda>q. if isLocal (store w) q
                    then q\<lparr>handCards := filter (\<lambda>c. id_card c \<notin> set cardIds) (handCards q)\<rparr>
                    else q) ps), usedCards := Some u0\<rparr>)\<rparr>"
        by simp
      from frame_general [OF g this] show ?thesis by simp
    qed
  qed
next
  assume a: "game (store w) = Some g \<and> players g = Some ps"
  then have g: "game (store w) = Some g" "players g = Some ps" by simp_all
  show "storeUsedCards (store (snd (toggleReady gameId w))) = usedCards g"
    by (simp add: toggleReady_store [OF g] storeUsedCards_def)
  show "storeUsedCards (store (snd (toggleOnlineStatus gameId response w))) = usedCards g"
  proof (cases response)
    case (Inl e')
    then show ?thesis using g by (simp add: toggleOnlineStatus_rejected storeUsedCards_def)
  next
    case (Inr u')
    then show ?thesis by (simp add: toggleOnlineStatus_store [OF g] storeUsedCards_def)
  qed
next
  assume nogame: "game (store w) = None"
  show "store (snd (putCard gameId cardIds selectedColor w)) = store w"
    and "store (snd (toggleOnlineStatus gameId (Inl e) w)) = store w"
    and "store (snd (toggleReady gameId w)) =
        (store w)\<lparr>game := Some (emptyObject\<lparr>players := Some []\<rparr>)\<rparr>"
    and "store (snd (toggleOnlineStatus gameId (Inr u) w)) =
        (store w)\<lparr>game := Some (emptyObject\<lparr>players := Some []\<rparr>)\<rparr>"
    by (simp_all add: empty_store_writes [OF nogame])
qed

lemma ex_world_game: "game (store ex_world) = Some ex_game" "players ex_game = Some [ex_p1, ex_p2]"
  by (simp_all add: ex_world_def ex_game_def)

lemma ex_world_other: "\<not> isLocal (store ex_world) ex_p1"
  by (simp add: isLocal_def ex_defs)

theorem optimistic_frame_witness:
  "game (store ex_world) = Some ex_game \<and> players ex_game = Some [ex_p1, ex_p2] \<and>
   \<not> isLocal (store ex_world) ex_p1 \<and>
   storeStatus (store (snd (toggleReady ''g1'' ex_world))) = Some ''started'' \<and>
   storeCurrentPlayerIndex (store (snd (toggleReady ''g1'' ex_world))) = Some 1 \<and>
   storePlayersOrEmpty (store (snd (toggleReady ''g1'' ex_world))) ! 0 = ex_p1 \<and>
   storeUsedCards (store (snd (toggleReady ''g1'' ex_world))) = Some [ex_c0] \<and>
   storeStatus (store (snd (putCard ''g1'' [''c1''] ''red'' ex_world))) = Some ''started'' \<and>
   storeCurrentPlayerIndex (store (snd (putCard ''g1'' [''c1''] ''red'' ex_world))) = Some 1 \<and>
   storePlayersOrEmpty (store (snd (putCard ''g1'' [''c1''] ''red'' ex_world))) ! 0 = ex_p1 \<and>
   storeStatus (store (snd (toggleOnlineStatus ''g1'' (Inr ()) ex_world))) = Some ''started'' \<and>
   storeCurrentPlayerIndex (store (snd (toggleOnlineStatus ''g1'' (Inr ()) ex_world))) = Some 1 \<and>
   storePlayersOrEmpty (store (snd (toggleOnlineStatus ''g1'' (Inr ()) ex_world))) ! 0 = ex_p1 \<and>
   game (store ex_world_nogame) = None \<and>
   store (snd (putCard ''g1'' [''c1''] ''red'' ex_world_nogame)) = store ex_world_nogame"
proof -
  let ?r = "store (snd (toggleReady ''g1'' ex_world))"
  let ?p = "store (snd (putCard ''g1'' [''c1''] ''red'' ex_world))"
  let ?o = "store (snd (toggleOnlineStatus ''g1'' (Inr ()) ex_world))"
  have key: "storeStatus s' = Some ''started'' \<and> storeCurrentPlayerIndex s' = Some 1 \<and>
      storePlayersOrEmpty s' ! 0 = ex_p1" if s': "s' \<in> {?r, ?p, ?o}" for s'
  proof -
    from optimistic_frame [of ex_world ex_game "[ex_p1, ex_p2]" s' "''g1''" "[''c1'']" "''red''" "Inr ()"]
      ex_world_game s'
    obtain g' ps' where g': "game s' = Some g'" "players g' = Some ps'"
      "status g' = status ex_game" "currentPlayerIndex g' = currentPlayerIndex ex_game"
      and seats: "\<forall>j<length [ex_p1, ex_p2].
            (\<not> isLocal (store ex_world) ([ex_p1, ex_p2] ! j) \<longrightarrow> ps' ! j = [ex_p1, ex_p2] ! j) \<and>
            (ps' ! j)\<lparr>ready := ready ([ex_p1, ex_p2] ! j),
               status_player := status_player ([ex_p1, ex_p2] ! j),
               handCards := handCards ([ex_p1, ex_p2] ! j)\<rparr> = [ex_p1, ex_p2] ! j"
      by blast
    from seats [rule_format, of 0] ex_world_other have "ps' ! 0 = ex_p1" by simp
    with g' show ?thesis
      by (simp add: storeStatus_def storeCurrentPlayerIndex_def storePlayersOrEmpty_def
          storePlayers_def ex_game_def)
  qed
  have r: "storeStatus ?r = Some ''started'' \<and> storeCurrentPlayerIndex ?r = Some 1 \<and>
      storePlayersOrEmpty ?r ! 0 = ex_p1"
    by (rule key) simp
  have p: "storeStatus ?p = Some ''started'' \<and> storeCurrentPlayerIndex ?p = Some 1 \<and>
      storePlayersOrEmpty ?p ! 0 = ex_p1"
    by (rule key) simp
  have o: "storeStatus ?o = Some ''started'' \<and> storeCurrentPlayerIndex ?o = Some 1 \<and>
      storePlayersOrEmpty ?o ! 0 = ex_p1"
    by (rule key) simp
  from optimistic_frame [of ex_world ex_game "[ex_p1, ex_p2]" ?r "''g1''" "[''c1'']" "''red''" "Inr ()"]
    ex_world_game
  have "storeUsedCards ?r = usedCards ex_game" by blast
  then have used: "storeUsedCards ?r = Some [ex_c0]" by (simp add: ex_game_def)
  have nogame: "game (store ex_world_nogame) = None" by (simp add: ex_world_nogame_def)
  with optimistic_frame [of ex_world_nogame ex_game "[]" "store ex_world_nogame" "''g1''" "[''c1'']" "''red''" "Inr ()"]
  have empty: "store (snd (putCard ''g1'' [''c1''] ''red'' ex_world_nogame)) = store ex_world_nogame"
    by blast
  from r p o used nogame empty ex_world_game ex_world_other show ?thesis by blast
qed

subsection \<open>Event subscribers\<close>

text \<open>
  Claim C8, as stated, says that on every received event the callback is invoked
  exactly once, after the store was written. The handler of \<^verbatim>\<open>reconnect\<close> awaits
  \<^verbatim>\<open>getPlayerData()\<close>; when that promise is rejected, the handler ends there: the store
  is not written and the callback is not invoked.
\<close>

theorem reconnect_rejected_counterexample:
  "onReconnect_handler (Inl (Rejected ''timeout'')) ex_world =
     (Inl (Rejected ''timeout''), ex_world\<lparr>trace := [GetPlayerData]\<rparr>) \<and>
   length (filter isInvoked (trace (snd (onReconnect_handler (Inl (Rejected ''timeout'')) ex_world)))) = 0 \<and>
   length (filter isStoreWrite (trace (snd (onReconnect_handler (Inl (Rejected ''timeout'')) ex_world)))) = 0 \<and>
   player (store (snd (onReconnect_handler (Inl (Rejected ''timeout'')) ex_world))) = Some ex_local"
  by (simp add: onReconnect_handler_def onReconnect_continue_def onReconnect_request_def
      ex_world_def)

text \<open>The chat of a message's id after the message was added ends with that message.\<close>

lemma appendMessage_lookup:
  "map_of (appendMessage chatId message cs) chatId =
     Some (case map_of cs chatId of
             None \<Rightarrow> \<lparr>id_chat = chatId, messages = [message]\<rparr>
           | Some c \<Rightarrow> c\<lparr>messages := messages c @ [message]\<rparr>)"
proof (cases "map_of cs chatId")
  case None
  then show ?thesis by (simp add: appendMessage_def map_add_def)
next
  case (Some c)
  have "map_of (map (\<lambda>(k, c). if k = chatId then (k, c\<lparr>messages := messages c @ [message]\<rparr>) else (k, c)) cs) chatId
      = map_option (\<lambda>c. c\<lparr>messages := messages c @ [message]\<rparr>) (map_of cs chatId)"
    by (induction cs) auto
  with Some show ?thesis by (simp add: appendMessage_def)
qed

text \<open>
  Claim C8, amended. On every \<^verbatim>\<open>GameStarted\<close> event the store's game is replaced and
  then the callback is invoked, once, and finds the new game. On every \<^verbatim>\<open>NewMessage\<close>
  event the message is added to the store's chats and then the callback, when one was
  supplied, is invoked, once. On every \<^verbatim>\<open>reconnect\<close> event for which
  \<^verbatim>\<open>getPlayerData()\<close> resolves, the store's local player is replaced by the value it
  returned and then the callback is invoked, once; when \<^verbatim>\<open>getPlayerData()\<close> is
  rejected, the store is not written and the callback is not invoked.
\<close>

theorem subscribers_spec:
  "onGameStart_handler g w =
     w\<lparr>store := (store w)\<lparr>game := Some g\<rparr>,
       trace := trace w @ [SetGameData g, Invoked ((store w)\<lparr>game := Some g\<rparr>)]\<rparr> \<and>
   onNewChatMessage_handler True chatId message w =
     w\<lparr>store := (store w)\<lparr>chats := appendMessage chatId message (chats (store w))\<rparr>,
       trace := trace w @ [AddChatMessage chatId message,
         Invoked ((store w)\<lparr>chats := appendMessage chatId message (chats (store w))\<rparr>)]\<rparr> \<and>
   onNewChatMessage_handler False chatId message w =
     w\<lparr>store := (store w)\<lparr>chats := appendMessage chatId message (chats (store w))\<rparr>,
       trace := trace w @ [AddChatMessage chatId message]\<rparr> \<and>
   onReconnect_handler (Inr playerData) w =
     (Inr (),
      w\<lparr>store := (store w)\<lparr>player := Some playerData\<rparr>,
        trace := trace w @ [GetPlayerData, SetPlayerData playerData,
          Invoked ((store w)\<lparr>player := Some playerData\<rparr>)]\<rparr>) \<and>
   onReconnect_handler (Inl e) w = (Inl e, w\<lparr>trace := trace w @ [GetPlayerData]\<rparr>) \<and>
   length (filter isInvoked (trace (onGameStart_handler g w))) =
     length (filter isInvoked (trace w)) + 1 \<and>
   length (filter isInvoked (trace (onNewChatMessage_handler True chatId message w))) =
     length (filter isInvoked (trace w)) + 1 \<and>
   length (filter isInvoked (trace (snd (onReconnect_handler (Inr playerData) w)))) =
     length (filter isInvoked (trace w)) + 1"
  by (simp add: onGameStart_handler_def onNewChatMessage_handler_def onReconnect_handler_def
      onReconnect_continue_def onReconnect_request_def invoke_def setGameData_def
      setPlayerData_def addChatMessage_def)

end
